theory Spec2Isabelle
  imports Main "HOL-Library.AList"
begin

section \<open>Python values used by the progress board\<close>

subsection \<open>Strings\<close>

text \<open>
  Status and message strings are modelled as ASCII text. \<open>lower\<close> is Python's
  \<^verbatim>\<open>str.lower()\<close> and \<open>strip\<close> is \<^verbatim>\<open>str.strip()\<close> on such text: the letters A-Z are
  mapped to a-z, and the characters Python's \<^verbatim>\<open>str.isspace\<close> accepts below 128 are
  TAB, LF, VT, FF, CR, FS, GS, RS, US and the blank. Bytes from 128 on are left
  alone by both functions.
\<close>

definition upper_lower :: "(char \<times> char) list" where
  "upper_lower = zip ''ABCDEFGHIJKLMNOPQRSTUVWXYZ'' ''abcdefghijklmnopqrstuvwxyz''"

definition lower_char :: "char \<Rightarrow> char" where
  "lower_char c = (case map_of upper_lower c of Some d \<Rightarrow> d | None \<Rightarrow> c)"

definition lower :: "string \<Rightarrow> string" where
  "lower s = map lower_char s"

definition is_space :: "char \<Rightarrow> bool" where
  "is_space c = (c \<in> set [CHR 0x09, CHR 0x0A, CHR 0x0B, CHR 0x0C, CHR 0x0D,
                           CHR 0x1C, CHR 0x1D, CHR 0x1E, CHR 0x1F, CHR 0x20])"

definition strip :: "string \<Rightarrow> string" where
  "strip s = rev (dropWhile is_space (rev (dropWhile is_space s)))"

subsection \<open>Checklist items\<close>

text \<open>
  A \<^verbatim>\<open>QListWidgetItem\<close>: its text, the stage id stored under \<^verbatim>\<open>UserRole\<close>, the
  \<^verbatim>\<open>ItemIsEditable\<close> flag and the check state.
\<close>

datatype check_state = Unchecked | PartiallyChecked | Checked

record item =
  item_text :: string
  item_data :: string
  item_editable :: bool
  item_check :: check_state

definition DONE_STATUSES :: "string set" where
  "DONE_STATUSES = {''completed'', ''attention'', ''blocked''}"

definition check_state_for_status :: "string \<Rightarrow> check_state" where
  "check_state_for_status status =
     (let normalized = strip (lower status) in
      if normalized \<in> DONE_STATUSES then Checked
      else if normalized = ''running'' then PartiallyChecked
      else if normalized = ''pending'' then Unchecked
      else PartiallyChecked)"

text \<open>
  \<^verbatim>\<open>_message_suffix\<close> walks the messages from the last to the first and returns at
  the first one whose stripped text is not empty.
\<close>

fun suffix_loop :: "string list \<Rightarrow> string" where
  "suffix_loop [] = ''''"
| "suffix_loop (message # rest) =
     (let txt = strip message in
      if txt \<noteq> [] then '' ('' @ txt @ '')'' else suffix_loop rest)"

definition message_suffix :: "string list \<Rightarrow> string" where
  "message_suffix messages = suffix_loop (rev messages)"

text \<open>
  \<^verbatim>\<open>_apply_stage_state(item, title, status, messages)\<close>. The status argument is a
  Python string or \<^verbatim>\<open>None\<close>; \<^verbatim>\<open>status or "pending"\<close> replaces \<^verbatim>\<open>None\<close> and the empty
  string. The result is the item after both setters, and the returned flag.
\<close>

definition status_text_of :: "string option \<Rightarrow> string" where
  "status_text_of status =
     (case status of None \<Rightarrow> ''pending''
      | Some s \<Rightarrow> if s = [] then ''pending'' else s)"

definition apply_stage_state ::
  "item \<Rightarrow> string \<Rightarrow> string option \<Rightarrow> string list \<Rightarrow> item \<times> bool" where
  "apply_stage_state it title status messages =
     (let status_text = status_text_of status;
          suffix = message_suffix messages;
          it1 = it\<lparr>item_text := title @ '' - '' @ status_text @ suffix\<rparr>;
          normalized_status = lower status_text;
          it2 = it1\<lparr>item_check := check_state_for_status normalized_status\<rparr>
      in (it2, normalized_status \<in> DONE_STATUSES))"

subsection \<open>Dictionaries\<close>

text \<open>
  A Python \<^verbatim>\<open>dict\<close> keeps its keys in insertion order: it is an association list.
  \<^verbatim>\<open>d.get(k)\<close> is \<open>map_of\<close>, \<^verbatim>\<open>d[k] = v\<close> replaces the value in place or appends the
  pair (\<open>AList.update\<close>), \<^verbatim>\<open>d.pop(k, None)\<close> drops the key (\<open>AList.delete\<close>).
\<close>

abbreviation dict_get :: "('k \<times> 'v) list \<Rightarrow> 'k \<Rightarrow> 'v option" where
  "dict_get d k \<equiv> map_of d k"

abbreviation dict_set :: "'k \<Rightarrow> 'v \<Rightarrow> ('k \<times> 'v) list \<Rightarrow> ('k \<times> 'v) list" where
  "dict_set k v d \<equiv> AList.update k v d"

abbreviation dict_pop :: "'k \<Rightarrow> ('k \<times> 'v) list \<Rightarrow> ('k \<times> 'v) list" where
  "dict_pop k d \<equiv> AList.delete k d"

abbreviation dict_keys :: "('k \<times> 'v) list \<Rightarrow> 'k list" where
  "dict_keys d \<equiv> map fst d"

subsection \<open>Parsed JSON\<close>

text \<open>
  What \<^verbatim>\<open>json.loads\<close> returns: \<open>JNull\<close> is Python's \<^verbatim>\<open>None\<close>. Numbers are the integers;
  a float literal is outside the model. \<open>truthy\<close> is Python's truth test and
  \<open>py_or\<close> its \<^verbatim>\<open>or\<close>; \<open>obj_get\<close> is \<^verbatim>\<open>dict.get(key)\<close>, which gives \<^verbatim>\<open>None\<close> for a
  missing key.
\<close>

datatype json =
  JNull | JBool bool | JNum int | JStr string | JArr "json list" | JObj "(string \<times> json) list"

fun truthy :: "json \<Rightarrow> bool" where
  "truthy JNull = False"
| "truthy (JBool b) = b"
| "truthy (JNum n) = (n \<noteq> 0)"
| "truthy (JStr s) = (s \<noteq> [])"
| "truthy (JArr xs) = (xs \<noteq> [])"
| "truthy (JObj kvs) = (kvs \<noteq> [])"

definition py_or :: "json \<Rightarrow> json \<Rightarrow> json" where
  "py_or a b = (if truthy a then a else b)"

definition obj_get :: "(string \<times> json) list \<Rightarrow> string \<Rightarrow> json" where
  "obj_get d k = (case dict_get d k of None \<Rightarrow> JNull | Some v \<Rightarrow> v)"

subsection \<open>The world outside the widget\<close>

text \<open>
  What the widget asks of Python and of the file system at one poll, taken as
  parameters: \<open>str_of_value\<close> is the builtin \<^verbatim>\<open>str()\<close> on a value that is not a
  string; \<open>st_mtime p\<close> is \<^verbatim>\<open>Path(p).stat().st_mtime\<close>, \<open>None\<close> when \<^verbatim>\<open>stat\<close> raises
  \<^verbatim>\<open>OSError\<close>; \<open>read_text p\<close> is the text of the file, \<open>None\<close> for \<^verbatim>\<open>OSError\<close>;
  \<open>json_loads\<close> is \<^verbatim>\<open>json.loads\<close>, \<open>None\<close> for \<^verbatim>\<open>JSONDecodeError\<close>; \<open>parent_of p\<close>
  is \<^verbatim>\<open>str(Path(p).parent)\<close> and \<open>resolve_under d p\<close> is \<^verbatim>\<open>str((Path(d) / p).resolve())\<close>.
  Modification times are only compared for equality.
\<close>

record env =
  str_of_value :: "json \<Rightarrow> string"
  st_mtime :: "string \<Rightarrow> int option"
  read_text :: "string \<Rightarrow> string option"
  json_loads :: "string \<Rightarrow> json option"
  parent_of :: "string \<Rightarrow> string"
  resolve_under :: "string \<Rightarrow> string \<Rightarrow> string"

definition to_str :: "env \<Rightarrow> json \<Rightarrow> string" where
  "to_str e v = (case v of JStr s \<Rightarrow> s | _ \<Rightarrow> str_of_value e v)"

datatype io = ReadText string | JsonLoads string

datatype error = AttributeError

subsection \<open>Repo index entries\<close>

record repo_entry =
  repo_id :: string
  display_name :: string
  re_status :: string
  updated_at :: string
  re_messages :: "string list"
  detail_path :: "string option"

record cache_entry =
  ce_path :: string
  ce_mtime :: int
  ce_entries :: "repo_entry list"

definition normalized_messages :: "env \<Rightarrow> json \<Rightarrow> string list" where
  "normalized_messages e messages_raw =
     (case messages_raw of
        JArr msgs \<Rightarrow> map (\<lambda>msg. strip (to_str e msg))
                       (filter (\<lambda>msg. strip (to_str e msg) \<noteq> []) msgs)
      | JStr s \<Rightarrow> (let txt = strip s in if txt \<noteq> [] then [txt] else [])
      | _ \<Rightarrow> [])"

definition normalize_repo_entry :: "env \<Rightarrow> json \<Rightarrow> string \<Rightarrow> repo_entry option" where
  "normalize_repo_entry e entry entries_dir =
     (case entry of
        JObj d \<Rightarrow>
          (let rid = to_str e (py_or (obj_get d ''repo_id'') (JStr ''''));
               display = to_str e (py_or (obj_get d ''display_name'')
                                    (py_or (JStr rid) (JStr ''<repo>'')));
               status = to_str e (py_or (obj_get d ''status'') (JStr ''pending''));
               updated = to_str e (py_or (obj_get d ''updated_at'') (JStr ''''));
               message_preview = normalized_messages e (obj_get d ''message_preview'');
               dpath = (case obj_get d ''detail_path'' of
                          JStr p \<Rightarrow> if p \<noteq> [] then Some (resolve_under e entries_dir p)
                                    else None
                        | _ \<Rightarrow> None)
           in Some \<lparr>repo_id = rid, display_name = display, re_status = status,
                    updated_at = updated, re_messages = message_preview,
                    detail_path = dpath\<rparr>)
      | _ \<Rightarrow> None)"

definition normalize_repo_entries :: "env \<Rightarrow> json \<Rightarrow> string \<Rightarrow> repo_entry list" where
  "normalize_repo_entries e entries_payload entries_dir =
     (case entries_payload of
        JArr entries \<Rightarrow> List.map_filter (\<lambda>entry. normalize_repo_entry e entry entries_dir) entries
      | _ \<Rightarrow> [])"

subsection \<open>Loading a repo index\<close>

definition safe_stat :: "env \<Rightarrow> string \<Rightarrow> int option" where
  "safe_stat e path = st_mtime e path"

text \<open>
  \<^verbatim>\<open>_read_json_payload\<close> returns \<^verbatim>\<open>None\<close>, here \<open>JNull\<close>, when reading or decoding
  raises. The first component lists what the call did to the file.
\<close>

definition read_json_payload :: "env \<Rightarrow> string \<Rightarrow> io list \<times> json" where
  "read_json_payload e path =
     (case read_text e path of
        None \<Rightarrow> ([ReadText path], JNull)
      | Some content \<Rightarrow>
          ([ReadText path, JsonLoads content],
           (case json_loads e content of None \<Rightarrow> JNull | Some v \<Rightarrow> v)))"

text \<open>
  \<^verbatim>\<open>_load_repo_index_payload(stage_id, metadata)\<close> reads the widget's cache and
  does not write it. A payload that is neither \<^verbatim>\<open>None\<close> nor an object has no
  \<^verbatim>\<open>get\<close>: the call raises \<^verbatim>\<open>AttributeError\<close>.
\<close>

definition load_repo_index_payload ::
  "env \<Rightarrow> (string \<times> cache_entry) list \<Rightarrow> string \<Rightarrow> (string \<times> json) list
     \<Rightarrow> io list \<times> (error + cache_entry option)" where
  "load_repo_index_payload e cache stage_id metadata =
     (let index_path_obj = obj_get metadata ''repo_progress_index_path'' in
      if \<not> truthy index_path_obj then ([], Inr None)
      else
        (let index_path = to_str e index_path_obj in
         (case safe_stat e index_path of
            None \<Rightarrow> ([], Inr None)
          | Some mtime \<Rightarrow>
              (let cached = dict_get cache stage_id in
               if (case cached of None \<Rightarrow> False | Some c \<Rightarrow> ce_mtime c = mtime)
               then ([], Inr cached)
               else
                 (let (trace, payload) = read_json_payload e index_path in
                  (case payload of
                     JNull \<Rightarrow> (trace, Inr None)
                   | JObj d \<Rightarrow>
                       (let entries_dir = to_str e (py_or (obj_get d ''entries_dir'')
                                                      (JStr (parent_of e index_path)));
                            entries = normalize_repo_entries e (obj_get d ''entries'')
                                        entries_dir
                        in (trace, Inr (Some \<lparr>ce_path = index_path, ce_mtime = mtime,
                                               ce_entries = entries\<rparr>)))
                   | _ \<Rightarrow> (trace, Inl AttributeError)))))))"

definition prune_stale_repo_cache ::
  "(string \<times> cache_entry) list \<Rightarrow> string set \<Rightarrow> (string \<times> cache_entry) list" where
  "prune_stale_repo_cache cache observed_ids =
     (let stale_keys = filter (\<lambda>stage_id. stage_id \<notin> observed_ids) (dict_keys cache)
      in fold dict_pop stale_keys cache)"

subsection \<open>Stages of a snapshot\<close>

text \<open>
  A stage object of the snapshot, read with \<^verbatim>\<open>getattr\<close> and a default: each
  attribute may be missing (\<open>None\<close> below). The status may also be present and
  \<^verbatim>\<open>None\<close>. The snapshot is its \<^verbatim>\<open>stages\<close> dict, empty when the attribute is missing
  or falsy.
\<close>

datatype 'a attr = Missing | IsNone | Has 'a

record stage =
  st_id :: "string option"
  st_title :: "string option"
  st_status :: "string attr"
  st_messages :: "string list option"
  st_metadata :: "(string \<times> json) list option"

type_synonym snapshot = "(string \<times> stage) list"

definition stage_status :: "stage option \<Rightarrow> string option" where
  "stage_status s =
     (case s of None \<Rightarrow> Some ''pending''
      | Some st \<Rightarrow> (case st_status st of
                      Missing \<Rightarrow> Some ''pending'' | IsNone \<Rightarrow> None | Has v \<Rightarrow> Some v))"

definition stage_messages :: "stage option \<Rightarrow> string list" where
  "stage_messages s =
     (case s of None \<Rightarrow> []
      | Some st \<Rightarrow> (case st_messages st of None \<Rightarrow> [] | Some ms \<Rightarrow> ms))"

definition stage_metadata :: "stage \<Rightarrow> (string \<times> json) list" where
  "stage_metadata st = (case st_metadata st of None \<Rightarrow> [] | Some m \<Rightarrow> m)"

definition build_stages :: "snapshot \<Rightarrow> (string \<times> stage) list" where
  "build_stages raw_stages =
     fold (\<lambda>(maybe_id, st) stages.
             dict_set (case st_id st of None \<Rightarrow> maybe_id | Some i \<Rightarrow> i) st stages)
          raw_stages []"

text \<open>
  The loop of \<^verbatim>\<open>_refresh_stage_repo_details\<close> over the stages: the cache and the
  observed ids after the stages processed so far, and the error that stopped it.
\<close>

fun refresh_loop ::
  "env \<Rightarrow> (string \<times> stage) list \<Rightarrow> (string \<times> cache_entry) list \<Rightarrow> string set
     \<Rightarrow> (string \<times> cache_entry) list \<times> string set \<times> error option" where
  "refresh_loop e [] cache observed_ids = (cache, observed_ids, None)"
| "refresh_loop e ((stage_id, st) # rest) cache observed_ids =
     (case snd (load_repo_index_payload e cache stage_id (stage_metadata st)) of
        Inl err \<Rightarrow> (cache, insert stage_id observed_ids, Some err)
      | Inr None \<Rightarrow> refresh_loop e rest (dict_pop stage_id cache) (insert stage_id observed_ids)
      | Inr (Some cache_entry) \<Rightarrow>
          refresh_loop e rest (dict_set stage_id cache_entry cache)
            (insert stage_id observed_ids))"

subsection \<open>The widget\<close>

record detail_row =
  cell_display :: string
  cell_status :: string
  cell_updated :: string
  cell_messages :: string
  cell_tooltip :: "string option"

text \<open>
  The state of a \<^verbatim>\<open>ProgressBoardWidget\<close>. \<open>checklist\<close> holds the rows of the list
  widget in order; \<open>items\<close> is \<^verbatim>\<open>_items\<close>, from a stage id to the row that holds its
  item, so that the item set through \<^verbatim>\<open>_items\<close> is the one the list shows.
  \<open>selected_data\<close> is the stage id stored in the row selected in the list, if any.
  \<open>timer_stops\<close> counts the calls of \<^verbatim>\<open>QTimer.stop\<close> and \<open>board_completed\<close> the
  emissions of the signal of that name.
\<close>

record widget =
  stage_definitions :: "(string \<times> string) list"
  checklist :: "item list"
  items :: "(string \<times> nat) list"
  selected_data :: "string option"
  selected_stage_id :: "string option"
  completion_triggered :: bool
  repo_index_cache :: "(string \<times> cache_entry) list"
  status_label :: string
  detail_table :: "detail_row list"
  timer_active :: bool
  timer_stops :: nat
  board_completed :: nat

definition add_definition_item :: "string \<times> string \<Rightarrow> widget \<Rightarrow> widget" where
  "add_definition_item d w =
     (case d of (stage_id, title) \<Rightarrow>
        w\<lparr>checklist := checklist w @
              [\<lparr>item_text = title @ '' - pending'', item_data = stage_id,
                item_editable = False, item_check = Unchecked\<rparr>],
          items := dict_set stage_id (length (checklist w)) (items w)\<rparr>)"

definition build_ui :: "widget \<Rightarrow> widget" where
  "build_ui w =
     (let w1 = fold add_definition_item (stage_definitions w)
                 (w\<lparr>status_label := ''Initializing orchestration tooling...''\<rparr>)
      in case checklist w1 of
           [] \<Rightarrow> w1
         | first # _ \<Rightarrow> w1\<lparr>selected_data := Some (item_data first),
                           selected_stage_id := Some (item_data first)\<rparr>)"

definition init_widget :: "(string \<times> string) list \<Rightarrow> widget" where
  "init_widget defs =
     (build_ui \<lparr>stage_definitions = defs, checklist = [], items = [],
               selected_data = None, selected_stage_id = None,
               completion_triggered = False, repo_index_cache = [],
               status_label = '''', detail_table = [], timer_active = False,
               timer_stops = 0, board_completed = 0\<rparr>)\<lparr>timer_active := True\<rparr>"

definition current_stage_id :: "widget \<Rightarrow> string option" where
  "current_stage_id w = selected_data w"

fun join :: "string \<Rightarrow> string list \<Rightarrow> string" where
  "join sep [] = ''''"
| "join sep [x] = x"
| "join sep (x # y # ys) = x @ sep @ join sep (y # ys)"

definition detail_row_of :: "repo_entry \<Rightarrow> detail_row" where
  "detail_row_of entry =
     \<lparr>cell_display = (if display_name entry \<noteq> [] then display_name entry
                       else if repo_id entry \<noteq> [] then repo_id entry else ''<repo>''),
      cell_status = (if re_status entry \<noteq> [] then re_status entry else ''pending''),
      cell_updated = updated_at entry,
      cell_messages = join '' | '' (filter (\<lambda>msg. strip msg \<noteq> []) (re_messages entry)),
      cell_tooltip = (case detail_path entry of
                        None \<Rightarrow> None | Some p \<Rightarrow> if p \<noteq> [] then Some p else None)\<rparr>"

definition update_detail_view :: "widget \<Rightarrow> string option \<Rightarrow> widget" where
  "update_detail_view w stage_id =
     (case stage_id of
        None \<Rightarrow> w\<lparr>detail_table := []\<rparr>
      | Some sid \<Rightarrow>
          (case dict_get (repo_index_cache w) sid of
             None \<Rightarrow> w\<lparr>detail_table := []\<rparr>
           | Some cache_entry \<Rightarrow>
               w\<lparr>detail_table := map detail_row_of (ce_entries cache_entry)\<rparr>))"

definition handle_stage_selection :: "widget \<Rightarrow> widget" where
  "handle_stage_selection w =
     (let stage_id = current_stage_id w
      in update_detail_view (w\<lparr>selected_stage_id := stage_id\<rparr>) stage_id)"

definition refresh_stage_repo_details ::
  "env \<Rightarrow> widget \<Rightarrow> (string \<times> stage) list \<Rightarrow> widget \<times> error option" where
  "refresh_stage_repo_details e w stages =
     (case refresh_loop e stages (repo_index_cache w) {} of
        (cache, observed_ids, Some err) \<Rightarrow> (w\<lparr>repo_index_cache := cache\<rparr>, Some err)
      | (cache, observed_ids, None) \<Rightarrow>
          (w\<lparr>repo_index_cache := prune_stale_repo_cache cache observed_ids\<rparr>, None))"

text \<open>
  The first loop of \<^verbatim>\<open>_update_from_snapshot\<close> over the stages: a stage id with no
  item yet gets a new row and a new definition.
\<close>

definition discover_stage :: "string \<times> stage \<Rightarrow> widget \<Rightarrow> widget" where
  "discover_stage p w =
     (case p of (stage_id, st) \<Rightarrow>
        if dict_get (items w) stage_id \<noteq> None then w
        else
          let title = (case st_title st of None \<Rightarrow> stage_id | Some t \<Rightarrow> t)
          in w\<lparr>checklist := checklist w @
                   [\<lparr>item_text = '''', item_data = stage_id,
                     item_editable = False, item_check = Unchecked\<rparr>],
               items := dict_set stage_id (length (checklist w)) (items w),
               stage_definitions := stage_definitions w @ [(stage_id, title)]\<rparr>)"

text \<open>
  The second loop, over the stage definitions: the rows after the definitions
  processed so far, and \<^verbatim>\<open>all_done\<close>.
\<close>

fun stage_loop ::
  "(string \<times> stage) list \<Rightarrow> (string \<times> nat) list \<Rightarrow> (string \<times> string) list
     \<Rightarrow> item list \<Rightarrow> bool \<Rightarrow> item list \<times> bool" where
  "stage_loop stages its [] rows all_done = (rows, all_done)"
| "stage_loop stages its ((stage_id, title) # rest) rows all_done =
     (case dict_get its stage_id of
        None \<Rightarrow> stage_loop stages its rest rows all_done
      | Some r \<Rightarrow>
          (let st = dict_get stages stage_id;
               (it, is_done) = apply_stage_state (rows ! r) title
                                 (stage_status st) (stage_messages st)
           in stage_loop stages its rest (rows[r := it]) (all_done \<and> is_done)))"

text \<open>
  \<^verbatim>\<open>_update_from_snapshot\<close>: the two loops over the stages and the definitions
  (\<open>merge_stages\<close>, with the value of \<^verbatim>\<open>all_done\<close> after them), then the repo details,
  the detail view and the banner. An error of the repo details leaves the method
  there.
\<close>

definition merge_stages :: "widget \<Rightarrow> (string \<times> stage) list \<Rightarrow> widget \<times> bool" where
  "merge_stages w stages =
     (let w1 = fold discover_stage stages w;
          (rows, all_done) = stage_loop stages (items w1) (stage_definitions w1)
                               (checklist w1) True
      in (w1\<lparr>checklist := rows\<rparr>, all_done))"

definition update_from_snapshot :: "env \<Rightarrow> widget \<Rightarrow> snapshot \<Rightarrow> widget \<times> error option" where
  "update_from_snapshot e w raw_stages =
     (let stages = build_stages raw_stages;
          (w2, all_done) = merge_stages w stages
      in case refresh_stage_repo_details e w2 stages of
           (w3, Some err) \<Rightarrow> (w3, Some err)
         | (w3, None) \<Rightarrow>
             (let w4 = update_detail_view w3 (current_stage_id w3)
              in if stages \<noteq> [] \<and> \<not> completion_triggered w4
                 then if all_done
                      then (w4\<lparr>status_label :=
                               ''All stages reported. Waiting for tooling shutdown...''\<rparr>, None)
                      else (w4\<lparr>status_label := ''Tracking orchestration stages...''\<rparr>, None)
                 else (w4, None)))"

definition handle_completion :: "widget \<Rightarrow> widget" where
  "handle_completion w =
     (if completion_triggered w then w
      else w\<lparr>completion_triggered := True, timer_active := False,
             timer_stops := timer_stops w + 1,
             board_completed := board_completed w + 1\<rparr>)"

definition closeEvent :: "widget \<Rightarrow> widget" where
  "closeEvent w = w\<lparr>timer_active := False, timer_stops := timer_stops w + 1\<rparr>"

text \<open>
  \<^verbatim>\<open>_refresh_snapshot\<close>: the snapshot the reader returned (\<open>None\<close> when it returned
  \<^verbatim>\<open>None\<close>) and whether the worker-done event is set are inputs of the poll.
\<close>

definition refresh_snapshot ::
  "env \<Rightarrow> widget \<Rightarrow> snapshot option \<Rightarrow> bool \<Rightarrow> widget \<times> error option" where
  "refresh_snapshot e w snapshot worker_done =
     (case snapshot of
        None \<Rightarrow>
          (if \<not> completion_triggered w
           then (w\<lparr>status_label := ''Waiting for progress snapshot feed...''\<rparr>, None)
           else (w, None))
      | Some raw_stages \<Rightarrow>
          (case update_from_snapshot e w raw_stages of
             (w1, Some err) \<Rightarrow> (w1, Some err)
           | (w1, None) \<Rightarrow>
               if worker_done \<and> \<not> completion_triggered w1
               then (handle_completion
                       (w1\<lparr>status_label :=
                             ''Tooling finished. Command center unlocking...''\<rparr>), None)
               else (w1, None)))"

text \<open>
  What can happen to a widget: a timer tick, with what the poll finds; the user
  selecting a row of the list, or none; the window closing. An exception raised
  in a slot is reported by the toolkit and the event loop goes on, with the state
  the slot left.
\<close>

datatype event = Tick env "snapshot option" bool | SelectRow "nat option" | Close

fun step :: "widget \<Rightarrow> event \<Rightarrow> widget" where
  "step w (Tick e snapshot worker_done) = fst (refresh_snapshot e w snapshot worker_done)"
| "step w (SelectRow None) = handle_stage_selection (w\<lparr>selected_data := None\<rparr>)"
| "step w (SelectRow (Some r)) =
     (if r < length (checklist w)
      then handle_stage_selection (w\<lparr>selected_data := Some (item_data (checklist w ! r))\<rparr>)
      else w)"
| "step w Close = closeEvent w"

definition run :: "widget \<Rightarrow> event list \<Rightarrow> widget" where
  "run w evs = foldl step w evs"

text \<open>The stage ids the snapshots of a run of events carry.\<close>

fun seen_ids :: "event list \<Rightarrow> string set" where
  "seen_ids [] = {}"
| "seen_ids (Tick e (Some raw_stages) worker_done # evs) =
     set (dict_keys (build_stages raw_stages)) \<union> seen_ids evs"
| "seen_ids (ev # evs) = seen_ids evs"

subsection \<open>Example inputs\<close>

text \<open>
  A poll environment with one index file, \<open>/run/index.json\<close>, last modified at
  time 2, whose text does not decode; and the snapshot of two pending stages,
  alpha and beta, as \<^verbatim>\<open>create_progress_snapshot\<close> makes it.
\<close>

definition example_env :: env where
  "example_env =
     \<lparr>str_of_value = (\<lambda>v. ''?''),
      st_mtime = (\<lambda>p. if p = ''/run/index.json'' then Some 2 else None),
      read_text = (\<lambda>p. if p = ''/run/index.json'' then Some ''{'' else None),
      json_loads = (\<lambda>s. None),
      parent_of = (\<lambda>p. ''/run''),
      resolve_under = (\<lambda>d p. d @ ''/'' @ p)\<rparr>"

definition pending_stage :: "string \<Rightarrow> string \<Rightarrow> stage" where
  "pending_stage sid title =
     \<lparr>st_id = Some sid, st_title = Some title, st_status = Has ''pending'',
      st_messages = Some [], st_metadata = Some []\<rparr>"

definition alpha_beta :: snapshot where
  "alpha_beta = [(''alpha'', pending_stage ''alpha'' ''Alpha''),
                 (''beta'', pending_stage ''beta'' ''Beta'')]"

text \<open>
  A stage that names the index file in its metadata, and a widget that tracks
  alpha and holds cached index entries for alpha and for a stage seen earlier.
\<close>

definition indexed_stage :: "string \<Rightarrow> string \<Rightarrow> stage" where
  "indexed_stage sid title =
     \<lparr>st_id = Some sid, st_title = Some title, st_status = Has ''running'',
      st_messages = Some [],
      st_metadata = Some [(''repo_progress_index_path'', JStr ''/run/index.json'')]\<rparr>"

definition cached_widget :: widget where
  "cached_widget =
     (init_widget [(''alpha'', ''Alpha'')])
       \<lparr>repo_index_cache :=
          [(''alpha'', \<lparr>ce_path = ''/run/index.json'', ce_mtime = 1,
                        ce_entries = [\<lparr>repo_id = ''r1'', display_name = ''Repo one'',
                                       re_status = ''running'', updated_at = '''',
                                       re_messages = [], detail_path = None\<rparr>]\<rparr>),
           (''old'', \<lparr>ce_path = ''/run/old.json'', ce_mtime = 1, ce_entries = []\<rparr>)]\<rparr>"

text \<open>
  The same environment with an index file that decodes to one entry, and with
  the index file unchanged since it was cached.
\<close>

definition index_payload :: json where
  "index_payload =
     JObj [(''entries'',
            JArr [JObj [(''repo_id'', JStr ''r2''), (''status'', JStr ''''),
                        (''message_preview'', JArr [JStr '' cloning '', JStr ''  '']),
                        (''detail_path'', JStr ''r2.json'')]])]"

definition readable_env :: env where
  "readable_env = example_env\<lparr>json_loads := (\<lambda>s. Some index_payload)\<rparr>"

definition unchanged_env :: env where
  "unchanged_env = example_env\<lparr>st_mtime := (\<lambda>p. Some 1)\<rparr>"

text \<open>
  And with an index file whose text is the JSON array \<^verbatim>\<open>[]\<close>: it decodes, to a
  value that is not an object.
\<close>

definition array_env :: env where
  "array_env =
     example_env\<lparr>read_text := (\<lambda>p. if p = ''/run/index.json'' then Some ''[]'' else None),
                  json_loads := (\<lambda>s. if s = ''[]'' then Some (JArr []) else None)\<rparr>"

subsection \<open>Done stages\<close>

text \<open>
  The status a snapshot reports for a stage id is a done-status: the status text
  \<^verbatim>\<open>_apply_stage_state\<close> derives for it, lower-cased, is in \<^verbatim>\<open>_DONE_STATUSES\<close>.
\<close>

definition stage_done :: "(string \<times> stage) list \<Rightarrow> string \<Rightarrow> bool" where
  "stage_done stages stage_id =
     (lower (status_text_of (stage_status (dict_get stages stage_id))) \<in> DONE_STATUSES)"

subsection \<open>Well-formed widgets\<close>

text \<open>
  Every row that \<open>items\<close> names is a row of the checklist, and no two stage ids
  name the same row: each item is created for one stage id and appended at once.
\<close>

definition wf_widget :: "widget \<Rightarrow> bool" where
  "wf_widget w =
     ((\<forall>(k, r) \<in> set (items w). r < length (checklist w)) \<and> distinct (map snd (items w)))"

section \<open>Properties\<close>

subsection \<open>Strings\<close>

lemma lower_char_idem: "lower_char (lower_char c) = lower_char c"
  by (simp add: lower_char_def upper_lower_def)

lemma lower_idem: "lower (lower s) = lower s"
  by (simp add: lower_def lower_char_idem)

lemma lower_eq_Nil: "lower s = [] \<longleftrightarrow> s = []"
  by (simp add: lower_def)

lemma suffix_loop_skip:
  "\<forall>x \<in> set xs. strip x = [] \<Longrightarrow> suffix_loop (xs @ ys) = suffix_loop ys"
  by (induction xs) simp_all

lemma message_suffix_blank:
  "\<forall>x \<in> set ms. strip x = [] \<Longrightarrow> message_suffix ms = []"
  using suffix_loop_skip [of "rev ms" "[]"] by (simp add: message_suffix_def)

lemma message_suffix_last:
  assumes "strip m \<noteq> []" and "\<forall>x \<in> set post. strip x = []"
  shows "message_suffix (pre @ m # post) = '' ('' @ strip m @ '')''"
proof -
  have "message_suffix (pre @ m # post) = suffix_loop (rev post @ m # rev pre)"
    by (simp add: message_suffix_def)
  also have "\<dots> = suffix_loop (m # rev pre)"
    using assms(2) by (intro suffix_loop_skip) simp
  also have "\<dots> = '' ('' @ strip m @ '')''"
    using assms(1) by simp
  finally show ?thesis .
qed

subsection \<open>The completion marker of a stage\<close>

lemma item_check_apply:
  "item_check (fst (apply_stage_state it t status ms)) =
     check_state_for_status (lower (status_text_of status))"
  by (simp add: apply_stage_state_def Let_def)

lemma check_state_for_status_lower:
  "check_state_for_status (lower s) =
     (if strip (lower s) \<in> DONE_STATUSES then Checked
      else if strip (lower s) = ''pending'' then Unchecked
      else PartiallyChecked)"
  by (simp add: check_state_for_status_def Let_def lower_idem)

lemma strip_done: "s \<in> DONE_STATUSES \<Longrightarrow> strip s = s"
  by (auto simp: DONE_STATUSES_def strip_def is_space_def)

lemma strip_running: "strip ''running'' = ''running''"
  by (simp add: strip_def is_space_def)

lemma strip_pending: "strip ''pending'' = ''pending''"
  by (simp add: strip_def is_space_def)

lemma running_not_done: "''running'' \<notin> DONE_STATUSES"
  by (simp add: DONE_STATUSES_def)

lemma pending_not_done: "''pending'' \<notin> DONE_STATUSES"
  by (simp add: DONE_STATUSES_def)

text \<open>
  Claim C1, as the code has it. For a non-empty status string \<open>s\<close> the check state
  set by \<open>apply_stage_state\<close> is decided by the lower-cased and then stripped
  status: \<open>Checked\<close> when that is one of completed, attention, blocked;
  \<open>Unchecked\<close> when it is pending; \<open>PartiallyChecked\<close> in every other case, running
  included, so the indeterminate marker is the in-progress one. The three cases the
  claim lists by the lower-cased value alone follow.
\<close>

theorem C1_check_state_by_status:
  assumes "s \<noteq> []"
  shows "item_check (fst (apply_stage_state it t (Some s) ms)) =
           (if strip (lower s) \<in> {''completed'', ''attention'', ''blocked''} then Checked
            else if strip (lower s) = ''pending'' then Unchecked
            else PartiallyChecked)
         \<and> (lower s \<in> {''completed'', ''attention'', ''blocked''} \<longrightarrow>
              item_check (fst (apply_stage_state it t (Some s) ms)) = Checked)
         \<and> (lower s = ''running'' \<longrightarrow>
              item_check (fst (apply_stage_state it t (Some s) ms)) = PartiallyChecked)
         \<and> (lower s = ''pending'' \<longrightarrow>
              item_check (fst (apply_stage_state it t (Some s) ms)) = Unchecked)"
proof -
  let ?c = "item_check (fst (apply_stage_state it t (Some s) ms))"
  have shown: "status_text_of (Some s) = s"
    using assms by (simp add: status_text_of_def)
  have main: "?c = (if strip (lower s) \<in> DONE_STATUSES then Checked
                    else if strip (lower s) = ''pending'' then Unchecked
                    else PartiallyChecked)"
    by (simp only: item_check_apply shown check_state_for_status_lower)
  have finished: "?c = Checked" if "lower s \<in> DONE_STATUSES"
    using that strip_done [OF that] by (simp add: main)
  have running: "?c = PartiallyChecked" if "lower s = ''running''"
    using that strip_running running_not_done by (simp add: main)
  have pending: "?c = Unchecked" if "lower s = ''pending''"
    using that strip_pending pending_not_done by (simp add: main)
  from main finished running pending show ?thesis
    by (simp add: DONE_STATUSES_def)
qed

theorem C1_check_state_by_status_witness:
  "item_check (fst (apply_stage_state
      \<lparr>item_text = '''', item_data = ''alpha'', item_editable = False, item_check = Unchecked\<rparr>
      ''Alpha'' (Some ''Blocked '') [])) = Checked"
  using C1_check_state_by_status [of "''Blocked ''"
      "\<lparr>item_text = '''', item_data = ''alpha'', item_editable = False, item_check = Unchecked\<rparr>"
      "''Alpha''" "[]"]
  by (simp add: lower_def lower_char_def upper_lower_def strip_def is_space_def)

text \<open>
  The claim's last case fails as stated: the status \<open>'' completed''\<close> is not empty and
  its lower-cased value is none of completed, attention, blocked, running, pending,
  yet the marker is \<open>Checked\<close>, not the indeterminate one.
\<close>

theorem C1_other_status_counterexample:
  "lower '' completed'' \<notin> {''completed'', ''attention'', ''blocked'', ''running'', ''pending''}
   \<and> '' completed'' \<noteq> []
   \<and> item_check (fst (apply_stage_state
        \<lparr>item_text = '''', item_data = ''alpha'', item_editable = False, item_check = Unchecked\<rparr>
        ''Alpha'' (Some '' completed'') [])) = Checked"
  by (simp add: apply_stage_state_def status_text_of_def check_state_for_status_def
      DONE_STATUSES_def lower_def lower_char_def upper_lower_def strip_def is_space_def)

subsection \<open>The display text of a stage\<close>

lemma item_text_apply:
  "item_text (fst (apply_stage_state it t status ms)) =
     t @ '' - '' @ status_text_of status @ message_suffix ms"
  by (simp add: apply_stage_state_def Let_def)

text \<open>
  Claim C8, as the code has it. The text set by \<open>apply_stage_state\<close> is the title,
  \<open>'' - ''\<close> and the status, where \<open>''pending''\<close> stands in for a status that is
  \<open>None\<close> or empty. Nothing follows when every message is blank after stripping;
  otherwise the stripped text of the last message that is not blank follows in
  parentheses.
\<close>

theorem C8_display_text:
  "((\<forall>x \<in> set ms. strip x = []) \<longrightarrow>
      item_text (fst (apply_stage_state it t status ms)) =
        t @ '' - '' @ (case status of None \<Rightarrow> ''pending''
                       | Some s \<Rightarrow> if s = [] then ''pending'' else s))
   \<and> (ms = pre @ m # post \<and> strip m \<noteq> [] \<and> (\<forall>x \<in> set post. strip x = []) \<longrightarrow>
      item_text (fst (apply_stage_state it t status ms)) =
        t @ '' - '' @ (case status of None \<Rightarrow> ''pending''
                       | Some s \<Rightarrow> if s = [] then ''pending'' else s)
          @ '' ('' @ strip m @ '')'')"
  by (simp add: item_text_apply status_text_of_def message_suffix_blank message_suffix_last)

theorem C8_display_text_witness:
  "item_text (fst (apply_stage_state
      \<lparr>item_text = '''', item_data = ''alpha'', item_editable = False, item_check = Unchecked\<rparr>
      ''Alpha'' (Some ''running'') [''cloning'', '' building '', ''  ''])) =
     ''Alpha - running (building)''"
  using C8_display_text [of "[''cloning'', '' building '', ''  '']"
      "\<lparr>item_text = '''', item_data = ''alpha'', item_editable = False, item_check = Unchecked\<rparr>"
      "''Alpha''" "Some ''running''" "[''cloning'']" "'' building ''" "[''  '']"]
  by (simp add: strip_def is_space_def)

text \<open>
  The claim as stated fails at two inputs: an empty status is shown as pending, not
  as the empty status, and the message is shown stripped, not as it was reported.
\<close>

theorem C8_display_text_counterexample:
  "item_text (fst (apply_stage_state
      \<lparr>item_text = '''', item_data = ''alpha'', item_editable = False, item_check = Unchecked\<rparr>
      ''Alpha'' (Some '''') [])) \<noteq> ''Alpha'' @ '' - '' @ ''''
   \<and> item_text (fst (apply_stage_state
      \<lparr>item_text = '''', item_data = ''alpha'', item_editable = False, item_check = Unchecked\<rparr>
      ''Alpha'' (Some ''running'') ['' building ''])) \<noteq>
       ''Alpha'' @ '' - '' @ ''running'' @ '' ('' @ '' building '' @ '')''"
  by (simp add: item_text_apply status_text_of_def message_suffix_def
      strip_def is_space_def)

subsection \<open>What an operation leaves alone\<close>

lemma update_detail_view_fields:
  "stage_definitions (update_detail_view w s) = stage_definitions w"
  "checklist (update_detail_view w s) = checklist w"
  "items (update_detail_view w s) = items w"
  "selected_data (update_detail_view w s) = selected_data w"
  "selected_stage_id (update_detail_view w s) = selected_stage_id w"
  "completion_triggered (update_detail_view w s) = completion_triggered w"
  "repo_index_cache (update_detail_view w s) = repo_index_cache w"
  "status_label (update_detail_view w s) = status_label w"
  "timer_active (update_detail_view w s) = timer_active w"
  "timer_stops (update_detail_view w s) = timer_stops w"
  "board_completed (update_detail_view w s) = board_completed w"
  by (simp_all add: update_detail_view_def split: option.splits)

lemma refresh_details_fields:
  "stage_definitions (fst (refresh_stage_repo_details e w stages)) = stage_definitions w"
  "checklist (fst (refresh_stage_repo_details e w stages)) = checklist w"
  "items (fst (refresh_stage_repo_details e w stages)) = items w"
  "selected_data (fst (refresh_stage_repo_details e w stages)) = selected_data w"
  "selected_stage_id (fst (refresh_stage_repo_details e w stages)) = selected_stage_id w"
  "completion_triggered (fst (refresh_stage_repo_details e w stages)) = completion_triggered w"
  "status_label (fst (refresh_stage_repo_details e w stages)) = status_label w"
  "detail_table (fst (refresh_stage_repo_details e w stages)) = detail_table w"
  "timer_active (fst (refresh_stage_repo_details e w stages)) = timer_active w"
  "timer_stops (fst (refresh_stage_repo_details e w stages)) = timer_stops w"
  "board_completed (fst (refresh_stage_repo_details e w stages)) = board_completed w"
  by (simp_all add: refresh_stage_repo_details_def split: prod.splits option.splits)

lemma discover_stage_fields:
  "selected_data (discover_stage p w) = selected_data w"
  "selected_stage_id (discover_stage p w) = selected_stage_id w"
  "completion_triggered (discover_stage p w) = completion_triggered w"
  "repo_index_cache (discover_stage p w) = repo_index_cache w"
  "status_label (discover_stage p w) = status_label w"
  "detail_table (discover_stage p w) = detail_table w"
  "timer_active (discover_stage p w) = timer_active w"
  "timer_stops (discover_stage p w) = timer_stops w"
  "board_completed (discover_stage p w) = board_completed w"
  by (simp_all add: discover_stage_def Let_def split: prod.splits)

lemma fold_discover_fields:
  "selected_data (fold discover_stage ps w) = selected_data w"
  "selected_stage_id (fold discover_stage ps w) = selected_stage_id w"
  "completion_triggered (fold discover_stage ps w) = completion_triggered w"
  "repo_index_cache (fold discover_stage ps w) = repo_index_cache w"
  "status_label (fold discover_stage ps w) = status_label w"
  "detail_table (fold discover_stage ps w) = detail_table w"
  "timer_active (fold discover_stage ps w) = timer_active w"
  "timer_stops (fold discover_stage ps w) = timer_stops w"
  "board_completed (fold discover_stage ps w) = board_completed w"
  by (induction ps arbitrary: w; simp add: discover_stage_fields)+

lemma merge_stages_fields:
  "selected_data (fst (merge_stages w stages)) = selected_data w"
  "selected_stage_id (fst (merge_stages w stages)) = selected_stage_id w"
  "completion_triggered (fst (merge_stages w stages)) = completion_triggered w"
  "repo_index_cache (fst (merge_stages w stages)) = repo_index_cache w"
  "status_label (fst (merge_stages w stages)) = status_label w"
  "detail_table (fst (merge_stages w stages)) = detail_table w"
  "timer_active (fst (merge_stages w stages)) = timer_active w"
  "timer_stops (fst (merge_stages w stages)) = timer_stops w"
  "board_completed (fst (merge_stages w stages)) = board_completed w"
  "items (fst (merge_stages w stages)) = items (fold discover_stage stages w)"
  "stage_definitions (fst (merge_stages w stages)) =
     stage_definitions (fold discover_stage stages w)"
  by (simp_all add: merge_stages_def Let_def case_prod_beta fold_discover_fields)

lemma update_from_snapshot_eq:
  "update_from_snapshot e w raw =
     (let stages = build_stages raw;
          w2 = fst (merge_stages w stages);
          w3 = fst (refresh_stage_repo_details e w2 stages);
          w4 = update_detail_view w3 (current_stage_id w3)
      in case snd (refresh_stage_repo_details e w2 stages) of
           Some err \<Rightarrow> (w3, Some err)
         | None \<Rightarrow>
             if stages \<noteq> [] \<and> \<not> completion_triggered w
             then if snd (merge_stages w stages)
                  then (w4\<lparr>status_label :=
                           ''All stages reported. Waiting for tooling shutdown...''\<rparr>, None)
                  else (w4\<lparr>status_label := ''Tracking orchestration stages...''\<rparr>, None)
             else (w4, None))"
  by (simp add: update_from_snapshot_def Let_def case_prod_beta update_detail_view_fields
      refresh_details_fields merge_stages_fields split: option.splits)

lemma update_from_snapshot_fields:
  "completion_triggered (fst (update_from_snapshot e w raw)) = completion_triggered w"
  "timer_active (fst (update_from_snapshot e w raw)) = timer_active w"
  "timer_stops (fst (update_from_snapshot e w raw)) = timer_stops w"
  "board_completed (fst (update_from_snapshot e w raw)) = board_completed w"
  "items (fst (update_from_snapshot e w raw)) = items (fst (merge_stages w (build_stages raw)))"
  "checklist (fst (update_from_snapshot e w raw)) =
     checklist (fst (merge_stages w (build_stages raw)))"
  "stage_definitions (fst (update_from_snapshot e w raw)) =
     stage_definitions (fst (merge_stages w (build_stages raw)))"
  by (simp_all add: update_from_snapshot_eq Let_def update_detail_view_fields
      refresh_details_fields merge_stages_fields split: option.splits)

lemma handle_completion_triggered: "completion_triggered (handle_completion w)"
  by (simp add: handle_completion_def)

lemma handle_completion_noop: "completion_triggered w \<Longrightarrow> handle_completion w = w"
  by (simp add: handle_completion_def)

lemma refresh_snapshot_counts:
  "board_completed (fst (refresh_snapshot e w snap d)) =
     (if snap \<noteq> None \<and> snd (update_from_snapshot e w (the snap)) = None \<and> d
         \<and> \<not> completion_triggered w
      then board_completed w + 1 else board_completed w)"
  "timer_stops (fst (refresh_snapshot e w snap d)) =
     (if snap \<noteq> None \<and> snd (update_from_snapshot e w (the snap)) = None \<and> d
         \<and> \<not> completion_triggered w
      then timer_stops w + 1 else timer_stops w)"
  "completion_triggered (fst (refresh_snapshot e w snap d)) =
     (completion_triggered w \<or>
      (snap \<noteq> None \<and> snd (update_from_snapshot e w (the snap)) = None \<and> d))"
proof -
  have c: "completion_triggered w1 = completion_triggered w"
    "board_completed w1 = board_completed w" "timer_stops w1 = timer_stops w"
    if "update_from_snapshot e w raw = (w1, r)" for w1 r raw
    using update_from_snapshot_fields(1,3,4) [of e w raw] that by simp_all
  show "board_completed (fst (refresh_snapshot e w snap d)) =
     (if snap \<noteq> None \<and> snd (update_from_snapshot e w (the snap)) = None \<and> d
         \<and> \<not> completion_triggered w
      then board_completed w + 1 else board_completed w)"
    by (auto simp: refresh_snapshot_def handle_completion_def c
        split: option.splits prod.splits)
  show  "timer_stops (fst (refresh_snapshot e w snap d)) =
     (if snap \<noteq> None \<and> snd (update_from_snapshot e w (the snap)) = None \<and> d
         \<and> \<not> completion_triggered w
      then timer_stops w + 1 else timer_stops w)"
    by (auto simp: refresh_snapshot_def handle_completion_def c
        split: option.splits prod.splits)
  show "completion_triggered (fst (refresh_snapshot e w snap d)) =
     (completion_triggered w \<or>
      (snap \<noteq> None \<and> snd (update_from_snapshot e w (the snap)) = None \<and> d))"
    by (auto simp: refresh_snapshot_def handle_completion_def c
        split: option.splits prod.splits)
qed

subsection \<open>Completion\<close>

lemmas eval_defs = init_widget_def build_ui_def add_definition_item_def
  update_from_snapshot_def merge_stages_def discover_stage_def build_stages_def
  refresh_stage_repo_details_def load_repo_index_payload_def prune_stale_repo_cache_def
  update_detail_view_def current_stage_id_def refresh_snapshot_def handle_completion_def
  stage_status_def stage_messages_def stage_metadata_def apply_stage_state_def
  status_text_of_def message_suffix_def check_state_for_status_def DONE_STATUSES_def
  lower_def lower_char_def upper_lower_def strip_def is_space_def obj_get_def
  example_env_def pending_stage_def alpha_beta_def Let_def

lemma refresh_snapshot_err:
  "snd (refresh_snapshot e w (Some raw) d) = snd (update_from_snapshot e w raw)"
  by (simp add: refresh_snapshot_def split: prod.splits option.splits)

text \<open>
  Claim C7. \<open>handle_completion\<close> is idempotent, and on a widget whose completion
  has been triggered it changes nothing. From a widget not yet completed, two
  invocations emit \<open>board_completed\<close> once and stop the timer once; so do two
  polls that find the worker-done event set, the first of which finds a snapshot
  and returns without an error.
\<close>

theorem C7_completion_idempotent:
  "handle_completion (handle_completion w) = handle_completion w
   \<and> (completion_triggered w \<longrightarrow> handle_completion w = w)
   \<and> (\<not> completion_triggered w \<longrightarrow>
        board_completed (handle_completion (handle_completion w)) = board_completed w + 1
        \<and> timer_stops (handle_completion (handle_completion w)) = timer_stops w + 1)
   \<and> (\<not> completion_triggered w \<and> snd (refresh_snapshot e1 w (Some raw1) True) = None \<longrightarrow>
        board_completed (fst (refresh_snapshot e1 w (Some raw1) True)) = board_completed w + 1
        \<and> timer_stops (fst (refresh_snapshot e1 w (Some raw1) True)) = timer_stops w + 1
        \<and> board_completed (fst (refresh_snapshot e2
             (fst (refresh_snapshot e1 w (Some raw1) True)) snap2 True)) = board_completed w + 1
        \<and> timer_stops (fst (refresh_snapshot e2
             (fst (refresh_snapshot e1 w (Some raw1) True)) snap2 True)) = timer_stops w + 1)"
  by (simp add: handle_completion_triggered handle_completion_noop refresh_snapshot_counts
      refresh_snapshot_err)
    (simp add: handle_completion_def)

theorem C7_completion_idempotent_witness:
  "board_completed (fst (refresh_snapshot example_env
      (fst (refresh_snapshot example_env (init_widget []) (Some alpha_beta) True))
      (Some alpha_beta) True)) = 1
   \<and> timer_stops (fst (refresh_snapshot example_env
      (fst (refresh_snapshot example_env (init_widget []) (Some alpha_beta) True))
      (Some alpha_beta) True)) = 1"
proof -
  have a: "\<not> completion_triggered (init_widget [])"
    by (simp add: init_widget_def build_ui_def)
  have b: "snd (refresh_snapshot example_env (init_widget []) (Some alpha_beta) True) = None"
    by (simp add: eval_defs)
  have c: "board_completed (init_widget []) = 0" "timer_stops (init_widget []) = 0"
    by (simp_all add: init_widget_def build_ui_def)
  show ?thesis
    using C7_completion_idempotent [of "init_widget []" example_env alpha_beta example_env
        "Some alpha_beta"] a b c
    by simp
qed

subsection \<open>The repo index cache\<close>

lemma refresh_loop_observed:
  "refresh_loop e stages cache obs = (cache', obs', None) \<Longrightarrow>
     obs' = obs \<union> set (dict_keys stages)"
proof (induction stages arbitrary: cache obs)
  case Nil
  then show ?case by simp
next
  case (Cons p stages)
  obtain sid st where p: "p = (sid, st)" by (cases p)
  show ?case
    using Cons.prems Cons.IH
    by (auto simp: p split: sum.splits option.splits)
qed

lemma keys_dict_pop: "fst ` set (dict_pop k d) = fst ` set d - {k}"
  by (induction d) auto

lemma keys_fold_dict_pop:
  "fst ` set (fold dict_pop ks d) = fst ` set d - set ks"
  by (induction ks arbitrary: d) (auto simp: keys_dict_pop)

lemma map_of_fold_dict_pop:
  "k \<notin> set ks \<Longrightarrow> dict_get (fold dict_pop ks d) k = dict_get d k"
  by (induction ks arbitrary: d) simp_all

lemma keys_prune:
  "fst ` set (prune_stale_repo_cache cache obs) = fst ` set cache \<inter> obs"
  by (auto simp: prune_stale_repo_cache_def keys_fold_dict_pop)

lemma dict_get_prune:
  "k \<in> obs \<Longrightarrow> dict_get (prune_stale_repo_cache cache obs) k = dict_get cache k"
  by (simp add: prune_stale_repo_cache_def map_of_fold_dict_pop)

lemma refresh_details_cache:
  assumes "refresh_stage_repo_details e w stages = (w', None)"
  shows "\<exists>cache. refresh_loop e stages (repo_index_cache w) {} =
            (cache, set (dict_keys stages), None)
          \<and> repo_index_cache w' = prune_stale_repo_cache cache (set (dict_keys stages))"
proof -
  obtain cache obs r where l: "refresh_loop e stages (repo_index_cache w) {} = (cache, obs, r)"
    by (cases "refresh_loop e stages (repo_index_cache w) {}")
  with assms have r: "r = None"
    by (auto simp: refresh_stage_repo_details_def split: option.splits)
  with l have "obs = set (dict_keys stages)"
    using refresh_loop_observed [of e stages "repo_index_cache w" "{}" cache obs] by simp
  with l r assms show ?thesis
    by (auto simp: refresh_stage_repo_details_def)
qed

lemma update_from_snapshot_cache:
  "repo_index_cache (fst (update_from_snapshot e w raw)) =
     repo_index_cache (fst (refresh_stage_repo_details e
        (fst (merge_stages w (build_stages raw))) (build_stages raw)))"
  by (simp add: update_from_snapshot_eq Let_def update_detail_view_fields
      split: option.splits)

lemma update_from_snapshot_err:
  "snd (update_from_snapshot e w raw) =
     snd (refresh_stage_repo_details e (fst (merge_stages w (build_stages raw)))
        (build_stages raw))"
  by (simp add: update_from_snapshot_eq Let_def split: option.splits)

lemma keys_prune_subset: "set (dict_keys (prune_stale_repo_cache cache obs)) \<subseteq> obs"
  using keys_prune [of cache obs] by auto

lemma refresh_details_keys:
  assumes "refresh_stage_repo_details e w stages = (w', None)"
  shows "set (dict_keys (repo_index_cache w')) \<subseteq> set (dict_keys stages)"
proof -
  from refresh_details_cache [OF assms] obtain cache where
    "repo_index_cache w' = prune_stale_repo_cache cache (set (dict_keys stages))"
    by blast
  then show ?thesis
    using keys_prune_subset [of cache "set (dict_keys stages)"] by simp
qed

text \<open>
  A refresh of the repo details that returns leaves only keys of stages of the
  snapshot just processed in the cache; so does an update from a snapshot that
  returns.
\<close>

lemma cache_keys_observed_on_return:
  "(refresh_stage_repo_details e w stages = (w', None) \<longrightarrow>
      set (dict_keys (repo_index_cache w')) \<subseteq> set (dict_keys stages))
   \<and> (update_from_snapshot e w raw_stages = (w'', None) \<longrightarrow>
      set (dict_keys (repo_index_cache w'')) \<subseteq> set (dict_keys (build_stages raw_stages)))"
proof (intro conjI impI)
  assume "refresh_stage_repo_details e w stages = (w', None)"
  then show "set (dict_keys (repo_index_cache w')) \<subseteq> set (dict_keys stages)"
    by (rule refresh_details_keys)
next
  assume u: "update_from_snapshot e w raw_stages = (w'', None)"
  let ?r = "refresh_stage_repo_details e (fst (merge_stages w (build_stages raw_stages)))
              (build_stages raw_stages)"
  have "snd ?r = None"
    using u update_from_snapshot_err [of e w raw_stages] by simp
  then have "?r = (fst ?r, None)"
    by (metis prod.collapse)
  then have "set (dict_keys (repo_index_cache (fst ?r))) \<subseteq>
      set (dict_keys (build_stages raw_stages))"
    by (rule refresh_details_keys)
  moreover have "repo_index_cache w'' = repo_index_cache (fst ?r)"
    using u update_from_snapshot_cache [of e w raw_stages] by simp
  ultimately show "set (dict_keys (repo_index_cache w'')) \<subseteq>
      set (dict_keys (build_stages raw_stages))"
    by simp
qed

lemmas example_defs = example_env_def pending_stage_def alpha_beta_def indexed_stage_def
  cached_widget_def

text \<open>
  Claim C6 says that after each refresh of the repo details every key of the
  cache is a stage id of the latest snapshot. The code misses it when the load
  raises. A widget constructed with no stage polls a snapshot of the stages
  alpha and old, whose index file decodes to an object: the cache holds both
  ids. The next poll finds the single stage beta, and its index file now holds
  the JSON array \<^verbatim>\<open>[]\<close>: \<^verbatim>\<open>payload.get\<close> raises \<^verbatim>\<open>AttributeError\<close>, the refresh is left
  before \<^verbatim>\<open>_prune_stale_repo_cache\<close> runs, and the cache still holds alpha and old,
  neither of which is a stage of the latest snapshot.
\<close>

theorem C6_stale_keys_after_raise:
  "set (dict_keys (repo_index_cache
      (run (init_widget [])
         [Tick readable_env (Some [(''alpha'', indexed_stage ''alpha'' ''Alpha''),
                                    (''old'', indexed_stage ''old'' ''Old'')]) False]))) =
     {''alpha'', ''old''}
   \<and> snd (refresh_snapshot array_env
        (run (init_widget [])
           [Tick readable_env (Some [(''alpha'', indexed_stage ''alpha'' ''Alpha''),
                                      (''old'', indexed_stage ''old'' ''Old'')]) False])
        (Some [(''beta'', indexed_stage ''beta'' ''Beta'')]) False) = Some AttributeError
   \<and> set (dict_keys (build_stages [(''beta'', indexed_stage ''beta'' ''Beta'')])) = {''beta''}
   \<and> set (dict_keys (repo_index_cache
        (run (init_widget [])
           [Tick readable_env (Some [(''alpha'', indexed_stage ''alpha'' ''Alpha''),
                                      (''old'', indexed_stage ''old'' ''Old'')]) False,
            Tick array_env (Some [(''beta'', indexed_stage ''beta'' ''Beta'')]) False]))) =
       {''alpha'', ''old''}"
  by (simp add: run_def eval_defs example_defs readable_env_def array_env_def index_payload_def
      read_json_payload_def safe_stat_def to_str_def py_or_def normalize_repo_entries_def
      normalize_repo_entry_def normalized_messages_def List.map_filter_def)

subsection \<open>The checklist mapping only grows\<close>

lemma discover_stage_keys:
  "fst ` set (items (discover_stage p w)) = insert (fst p) (fst ` set (items w))"
  by (cases p) (auto simp: discover_stage_def Let_def dom_update dest: map_of_SomeD weak_map_of_SomeI
      simp: map_of_eq_None_iff)

lemma fold_discover_keys:
  "fst ` set (items (fold discover_stage ps w)) =
     fst ` set ps \<union> fst ` set (items w)"
  by (induction ps arbitrary: w) (auto simp: discover_stage_keys)

lemma update_from_snapshot_keys:
  "fst ` set (items (fst (update_from_snapshot e w raw))) =
     fst ` set (build_stages raw) \<union> fst ` set (items w)"
  by (simp only: update_from_snapshot_fields merge_stages_fields fold_discover_keys)

lemma handle_completion_items: "items (handle_completion w) = items w"
  by (simp add: handle_completion_def)

lemma refresh_snapshot_keys:
  "fst ` set (items (fst (refresh_snapshot e w snap d))) =
     (case snap of None \<Rightarrow> {} | Some raw \<Rightarrow> fst ` set (build_stages raw))
       \<union> fst ` set (items w)"
proof (cases snap)
  case None
  then show ?thesis by (simp add: refresh_snapshot_def)
next
  case (Some raw)
  have "items (fst (refresh_snapshot e w (Some raw) d)) =
      items (fst (update_from_snapshot e w raw))"
    by (cases "update_from_snapshot e w raw")
      (auto simp: refresh_snapshot_def handle_completion_items split: option.splits)
  then show ?thesis
    using Some by (simp add: update_from_snapshot_keys)
qed

lemma handle_stage_selection_items: "items (handle_stage_selection w) = items w"
  by (simp add: handle_stage_selection_def Let_def update_detail_view_fields)

lemma step_keys:
  "fst ` set (items (step w ev)) = seen_ids [ev] \<union> fst ` set (items w)"
proof (cases ev)
  case (Tick e snap d)
  then show ?thesis
    by (cases snap) (simp_all add: refresh_snapshot_keys)
next
  case (SelectRow r)
  then show ?thesis
    by (cases r) (simp_all add: handle_stage_selection_items)
next
  case Close
  then show ?thesis by (simp add: closeEvent_def)
qed

lemma seen_ids_Cons: "seen_ids (ev # evs) = seen_ids [ev] \<union> seen_ids evs"
  by (cases "(ev # evs)" rule: seen_ids.cases) auto

lemma run_keys:
  "fst ` set (items (run w evs)) = seen_ids evs \<union> fst ` set (items w)"
proof (induction evs arbitrary: w)
  case Nil
  then show ?case by (simp add: run_def)
next
  case (Cons ev evs)
  have "run w (ev # evs) = run (step w ev) evs"
    by (simp add: run_def)
  then show ?case
    using Cons.IH [of "step w ev"] step_keys [of w ev] seen_ids_Cons [of ev evs]
    by auto
qed

lemma add_definition_keys:
  "fst ` set (items (add_definition_item d w)) = insert (fst d) (fst ` set (items w))"
  by (cases d) (simp add: add_definition_item_def dom_update)

lemma fold_add_definition_keys:
  "fst ` set (items (fold add_definition_item ds w)) =
     fst ` set ds \<union> fst ` set (items w)"
  by (induction ds arbitrary: w) (auto simp: add_definition_keys)

lemma fold_add_definition_defs:
  "stage_definitions (fold add_definition_item ds w) = stage_definitions w"
  by (induction ds arbitrary: w) (auto simp: add_definition_item_def)

lemma init_widget_keys: "fst ` set (items (init_widget defs)) = fst ` set defs"
  by (simp add: init_widget_def build_ui_def Let_def fold_add_definition_keys
      split: list.splits)

text \<open>
  Claim C5. No event removes a key of the checklist mapping, and after any run of
  events from the widget as constructed the keys are exactly the ids of the
  stage definitions it was given and the stage ids of the snapshots polled: in
  particular a superset of every stage id seen.
\<close>

theorem C5_items_superset:
  "set (dict_keys (items w)) \<subseteq> set (dict_keys (items (step w ev)))
   \<and> set (dict_keys (items w)) \<union> seen_ids evs \<subseteq> set (dict_keys (items (run w evs)))
   \<and> set (dict_keys (items (run (init_widget defs) evs))) = set (dict_keys defs) \<union> seen_ids evs"
  using step_keys [of w ev] run_keys [of w evs] run_keys [of "init_widget defs" evs]
    init_widget_keys [of defs]
  by auto

theorem C5_items_superset_witness:
  "{''environment'', ''alpha'', ''beta''} \<subseteq>
     set (dict_keys (items (run (init_widget [(''environment'', ''Environment'')])
        [Tick example_env None False, Tick example_env (Some alpha_beta) False,
         SelectRow (Some 1), Tick example_env (Some []) True, Close])))"
  using C5_items_superset [of "init_widget [(''environment'', ''Environment'')]"
      Close "[Tick example_env None False, Tick example_env (Some alpha_beta) False,
         SelectRow (Some 1), Tick example_env (Some []) True, Close]"
      "[(''environment'', ''Environment'')]"]
  by (simp add: build_stages_def alpha_beta_def pending_stage_def)

subsection \<open>Stripping\<close>

lemma last_dropWhile: "dropWhile P xs \<noteq> [] \<Longrightarrow> last (dropWhile P xs) = last xs"
  by (induction xs) (auto split: if_splits)

lemma strip_ends:
  assumes "strip s \<noteq> []"
  shows "\<not> is_space (hd (strip s))" and "\<not> is_space (last (strip s))"
proof -
  let ?t = "dropWhile is_space s"
  let ?u = "dropWhile is_space (rev ?t)"
  have u: "?u \<noteq> []" using assms by (simp add: strip_def)
  have t: "?t \<noteq> []"
  proof
    assume e: "?t = []"
    have "?u = []" unfolding e by simp
    with u show False by contradiction
  qed
  have "last (strip s) = hd ?u"
    using u by (simp add: strip_def last_rev)
  then show "\<not> is_space (last (strip s))"
    using u hd_dropWhile [of is_space "rev ?t"] by simp
  have "hd (strip s) = last ?u"
    using u by (simp add: strip_def hd_rev)
  also have "\<dots> = last (rev ?t)"
    using u by (rule last_dropWhile)
  also have "\<dots> = hd ?t"
    using t by (simp add: last_rev)
  finally show "\<not> is_space (hd (strip s))"
    using t hd_dropWhile [of is_space s] by simp
qed

lemma strip_idem: "strip (strip s) = strip s"
proof (cases "strip s = []")
  case True
  have "strip [] = []" by (simp add: strip_def)
  then show ?thesis by (simp only: True)
next
  case False
  have a: "dropWhile is_space (strip s) = strip s"
    using False strip_ends(1) [OF False] by (simp add: dropWhile_eq_self_iff)
  have b: "dropWhile is_space (rev (strip s)) = rev (strip s)"
    using False strip_ends(2) [OF False] by (simp add: dropWhile_eq_self_iff hd_rev)
  show ?thesis
    unfolding strip_def [of "strip s"] a b by simp
qed

subsection \<open>Loading and normalizing a repo index\<close>

lemma load_hit:
  assumes "dict_get cache sid = Some c"
    and "truthy (obj_get md ''repo_progress_index_path'')"
    and "st_mtime e (to_str e (obj_get md ''repo_progress_index_path'')) = Some (ce_mtime c)"
  shows "load_repo_index_payload e cache sid md = ([], Inr (Some c))"
  using assms by (simp add: load_repo_index_payload_def safe_stat_def Let_def)

lemma load_miss:
  assumes "truthy (obj_get md ''repo_progress_index_path'')"
    and "st_mtime e (to_str e (obj_get md ''repo_progress_index_path'')) = Some mt"
    and "\<forall>c. dict_get cache sid = Some c \<longrightarrow> ce_mtime c \<noteq> mt"
  shows "load_repo_index_payload e cache sid md =
     (let index_path = to_str e (obj_get md ''repo_progress_index_path'');
          (trace, payload) = read_json_payload e index_path
      in (trace,
          (case payload of
             JNull \<Rightarrow> Inr None
           | JObj d \<Rightarrow>
               Inr (Some \<lparr>ce_path = index_path, ce_mtime = mt,
                          ce_entries = normalize_repo_entries e (obj_get d ''entries'')
                            (if truthy (obj_get d ''entries_dir'')
                             then to_str e (obj_get d ''entries_dir'')
                             else parent_of e index_path)\<rparr>)
           | _ \<Rightarrow> Inl AttributeError)))"
  using assms
  by (cases "dict_get cache sid")
    (auto simp: load_repo_index_payload_def safe_stat_def Let_def py_or_def to_str_def
      split: prod.splits json.splits)

text \<open>
  Claim C4. For a stage with a cached entry whose metadata names an index file
  that \<^verbatim>\<open>stat\<close> can read: when the file's modification time equals the cached one
  the load returns the cached entry and touches the file not at all; when it
  differs the load reads the file, decodes the text read, and returns the
  entries normalized from the fresh payload under the fresh modification time.
\<close>

theorem C4_cache_by_mtime:
  assumes "dict_get cache sid = Some c"
    and "truthy (obj_get md ''repo_progress_index_path'')"
    and "st_mtime e (to_str e (obj_get md ''repo_progress_index_path'')) = Some mt"
  shows "(ce_mtime c = mt \<longrightarrow>
            load_repo_index_payload e cache sid md = ([], Inr (Some c)))
       \<and> (ce_mtime c \<noteq> mt \<longrightarrow>
            ReadText (to_str e (obj_get md ''repo_progress_index_path''))
              \<in> set (fst (load_repo_index_payload e cache sid md))
            \<and> (\<forall>content.
                 read_text e (to_str e (obj_get md ''repo_progress_index_path'')) = Some content
                 \<longrightarrow> fst (load_repo_index_payload e cache sid md) =
                       [ReadText (to_str e (obj_get md ''repo_progress_index_path'')),
                        JsonLoads content])
            \<and> (\<forall>content d.
                 read_text e (to_str e (obj_get md ''repo_progress_index_path'')) = Some content
                 \<and> json_loads e content = Some (JObj d)
                 \<longrightarrow> snd (load_repo_index_payload e cache sid md) =
                       Inr (Some \<lparr>ce_path = to_str e (obj_get md ''repo_progress_index_path''),
                                  ce_mtime = mt,
                                  ce_entries = normalize_repo_entries e (obj_get d ''entries'')
                                    (if truthy (obj_get d ''entries_dir'')
                                     then to_str e (obj_get d ''entries_dir'')
                                     else parent_of e
                                       (to_str e (obj_get md ''repo_progress_index_path'')))\<rparr>)))"
proof (intro conjI impI)
  assume "ce_mtime c = mt"
  with assms show "load_repo_index_payload e cache sid md = ([], Inr (Some c))"
    by (simp add: load_hit)
next
  assume ne: "ce_mtime c \<noteq> mt"
  let ?p = "to_str e (obj_get md ''repo_progress_index_path'')"
  have miss: "\<forall>c. dict_get cache sid = Some c \<longrightarrow> ce_mtime c \<noteq> mt"
    using assms(1) ne by simp
  note l = load_miss [OF assms(2) assms(3) miss]
  show "ReadText ?p \<in> set (fst (load_repo_index_payload e cache sid md))"
    by (simp add: l Let_def read_json_payload_def split: option.splits)
  show "\<forall>content. read_text e ?p = Some content
          \<longrightarrow> fst (load_repo_index_payload e cache sid md) = [ReadText ?p, JsonLoads content]"
    by (simp add: l Let_def read_json_payload_def)
  show "\<forall>content d. read_text e ?p = Some content \<and> json_loads e content = Some (JObj d)
          \<longrightarrow> snd (load_repo_index_payload e cache sid md) =
              Inr (Some \<lparr>ce_path = ?p, ce_mtime = mt,
                         ce_entries = normalize_repo_entries e (obj_get d ''entries'')
                           (if truthy (obj_get d ''entries_dir'')
                            then to_str e (obj_get d ''entries_dir'')
                            else parent_of e ?p)\<rparr>)"
    by (simp add: l Let_def read_json_payload_def)
qed

theorem C4_cache_by_mtime_witness:
  "load_repo_index_payload unchanged_env (repo_index_cache cached_widget) ''alpha''
       [(''repo_progress_index_path'', JStr ''/run/index.json'')] =
     ([], Inr (dict_get (repo_index_cache cached_widget) ''alpha''))
   \<and> fst (load_repo_index_payload readable_env (repo_index_cache cached_widget) ''alpha''
       [(''repo_progress_index_path'', JStr ''/run/index.json'')]) =
     [ReadText ''/run/index.json'', JsonLoads ''{'']
   \<and> map repo_id (case snd (load_repo_index_payload readable_env
        (repo_index_cache cached_widget) ''alpha''
        [(''repo_progress_index_path'', JStr ''/run/index.json'')]) of
          Inr (Some ce) \<Rightarrow> ce_entries ce | _ \<Rightarrow> []) = [''r2'']"
proof -
  let ?c = "\<lparr>ce_path = ''/run/index.json'', ce_mtime = 1,
              ce_entries = [\<lparr>repo_id = ''r1'', display_name = ''Repo one'',
                             re_status = ''running'', updated_at = '''',
                             re_messages = [], detail_path = None\<rparr>]\<rparr>"
  let ?md = "[(''repo_progress_index_path'', JStr ''/run/index.json'')]"
  have c: "dict_get (repo_index_cache cached_widget) ''alpha'' = Some ?c"
    by (simp add: cached_widget_def)
  have t: "truthy (obj_get ?md ''repo_progress_index_path'')"
    by (simp add: obj_get_def)
  have p: "to_str e (obj_get ?md ''repo_progress_index_path'') = ''/run/index.json''" for e
    by (simp add: obj_get_def to_str_def)
  have m1: "st_mtime unchanged_env (to_str unchanged_env
      (obj_get ?md ''repo_progress_index_path'')) = Some 1"
    by (simp add: unchanged_env_def)
  have m2: "st_mtime readable_env (to_str readable_env
      (obj_get ?md ''repo_progress_index_path'')) = Some 2"
    by (simp add: p readable_env_def example_env_def)
  have r: "read_text readable_env ''/run/index.json'' = Some ''{''"
    "json_loads readable_env ''{'' = Some index_payload"
    by (simp_all add: readable_env_def example_env_def)
  show ?thesis
    using C4_cache_by_mtime [OF c t m1] C4_cache_by_mtime [OF c t m2] r
    by (simp add: p c index_payload_def obj_get_def normalize_repo_entries_def
        normalize_repo_entry_def List.map_filter_def py_or_def to_str_def Let_def)
qed

lemma to_str_nonempty:
  "\<forall>v. truthy v \<longrightarrow> str_of_value e v \<noteq> [] \<Longrightarrow> truthy v \<Longrightarrow> to_str e v \<noteq> []"
  by (cases v) (auto simp: to_str_def)

lemma to_str_py_or:
  "to_str e (py_or v (JStr s)) = (if truthy v then to_str e v else s)"
  by (simp add: py_or_def to_str_def)

lemma normalized_messages_clean:
  "m \<in> set (normalized_messages e raw) \<Longrightarrow> m \<noteq> [] \<and> strip m = m"
  by (cases raw) (auto simp: normalized_messages_def Let_def strip_idem split: if_splits)

lemma normalize_repo_entry_obj:
  "normalize_repo_entry e (JObj d) dir =
     Some \<lparr>repo_id = (if truthy (obj_get d ''repo_id'')
                      then to_str e (obj_get d ''repo_id'') else []),
           display_name =
             (if truthy (obj_get d ''display_name'') then to_str e (obj_get d ''display_name'')
              else if truthy (obj_get d ''repo_id'') \<and> to_str e (obj_get d ''repo_id'') \<noteq> []
                   then to_str e (obj_get d ''repo_id'')
                   else ''<repo>''),
           re_status = (if truthy (obj_get d ''status'')
                        then to_str e (obj_get d ''status'') else ''pending''),
           updated_at = (if truthy (obj_get d ''updated_at'')
                         then to_str e (obj_get d ''updated_at'') else []),
           re_messages = normalized_messages e (obj_get d ''message_preview''),
           detail_path = (case obj_get d ''detail_path'' of
                            JStr p \<Rightarrow> if p \<noteq> [] then Some (resolve_under e dir p) else None
                          | _ \<Rightarrow> None)\<rparr>"
  by (simp add: normalize_repo_entry_def Let_def to_str_py_or)
    (simp add: py_or_def to_str_def)

text \<open>
  Claim C9. Provided \<^verbatim>\<open>str()\<close> of a truthy value is never empty, as it is in
  Python, a raw entry that is a JSON object is normalized to an entry whose
  display name is not empty: it is the given one, else the repo id, else
  \<open>''<repo>''\<close>. The status falls back to pending and the update time to the empty
  string when the field is absent or empty. The messages are the stripped texts
  that are not blank of a list preview, or of a single string preview, each
  non-empty and already stripped. A detail path given as a non-empty string is
  resolved under the entries directory, which a load takes from the payload's
  \<open>entries_dir\<close> or, when that is absent or empty, from the parent of the index
  file.
\<close>

theorem C9_normalize_repo_entry:
  assumes "\<forall>v. truthy v \<longrightarrow> str_of_value e v \<noteq> []"
  shows "\<exists>r. normalize_repo_entry e (JObj d) dir = Some r
     \<and> display_name r \<noteq> []
     \<and> display_name r =
         (if truthy (obj_get d ''display_name'') then to_str e (obj_get d ''display_name'')
          else if repo_id r \<noteq> [] then repo_id r else ''<repo>'')
     \<and> (dict_get d ''status'' = None \<or> dict_get d ''status'' = Some (JStr [])
          \<longrightarrow> re_status r = ''pending'')
     \<and> (\<forall>s. dict_get d ''status'' = Some (JStr s) \<and> s \<noteq> [] \<longrightarrow> re_status r = s)
     \<and> (dict_get d ''updated_at'' = None \<or> dict_get d ''updated_at'' = Some (JStr [])
          \<longrightarrow> updated_at r = [])
     \<and> (\<forall>s. dict_get d ''updated_at'' = Some (JStr s) \<longrightarrow> updated_at r = s)
     \<and> (\<forall>ms. dict_get d ''message_preview'' = Some (JArr ms) \<longrightarrow>
           re_messages r = filter (\<lambda>m. m \<noteq> []) (map (\<lambda>m. strip (to_str e m)) ms))
     \<and> (\<forall>s. dict_get d ''message_preview'' = Some (JStr s) \<longrightarrow>
           re_messages r = filter (\<lambda>m. m \<noteq> []) [strip s])
     \<and> (\<forall>m \<in> set (re_messages r). m \<noteq> [] \<and> strip m = m)
     \<and> (\<forall>p. dict_get d ''detail_path'' = Some (JStr p) \<and> p \<noteq> [] \<longrightarrow>
           detail_path r = Some (resolve_under e dir p))
     \<and> (\<forall>md mt cache sid content d0.
           truthy (obj_get md ''repo_progress_index_path'')
           \<and> st_mtime e (to_str e (obj_get md ''repo_progress_index_path'')) = Some mt
           \<and> (\<forall>c. dict_get cache sid = Some c \<longrightarrow> ce_mtime c \<noteq> mt)
           \<and> read_text e (to_str e (obj_get md ''repo_progress_index_path'')) = Some content
           \<and> json_loads e content = Some (JObj d0)
           \<longrightarrow> (\<exists>ce. snd (load_repo_index_payload e cache sid md) = Inr (Some ce)
                 \<and> (dict_get d0 ''entries_dir'' = None
                        \<or> dict_get d0 ''entries_dir'' = Some (JStr []) \<longrightarrow>
                      ce_entries ce = normalize_repo_entries e (obj_get d0 ''entries'')
                        (parent_of e (to_str e (obj_get md ''repo_progress_index_path''))))
                 \<and> (\<forall>s. dict_get d0 ''entries_dir'' = Some (JStr s) \<and> s \<noteq> [] \<longrightarrow>
                      ce_entries ce = normalize_repo_entries e (obj_get d0 ''entries'') s)))"
proof -
  let ?r = "the (normalize_repo_entry e (JObj d) dir)"
  note n = normalize_repo_entry_obj [of e d dir]
  have r: "normalize_repo_entry e (JObj d) dir = Some ?r"
    by (simp add: n)
  have rid: "repo_id ?r = (if truthy (obj_get d ''repo_id'')
      then to_str e (obj_get d ''repo_id'') else [])"
    by (simp add: n)
  have dn: "display_name ?r =
      (if truthy (obj_get d ''display_name'') then to_str e (obj_get d ''display_name'')
       else if repo_id ?r \<noteq> [] then repo_id ?r else ''<repo>'')"
    by (simp add: n)
  have dn_ne: "display_name ?r \<noteq> []"
    using to_str_nonempty [OF assms, of "obj_get d ''display_name''"]
    by (simp add: dn)
  have st1: "dict_get d ''status'' = None \<or> dict_get d ''status'' = Some (JStr [])
      \<longrightarrow> re_status ?r = ''pending''"
    by (auto simp: n obj_get_def)
  have st2: "\<forall>s. dict_get d ''status'' = Some (JStr s) \<and> s \<noteq> [] \<longrightarrow> re_status ?r = s"
    by (auto simp: n obj_get_def to_str_def)
  have up1: "dict_get d ''updated_at'' = None \<or> dict_get d ''updated_at'' = Some (JStr [])
      \<longrightarrow> updated_at ?r = []"
    by (auto simp: n obj_get_def)
  have up2: "\<forall>s. dict_get d ''updated_at'' = Some (JStr s) \<longrightarrow> updated_at ?r = s"
    by (auto simp: n obj_get_def to_str_def)
  have ms1: "\<forall>ms. dict_get d ''message_preview'' = Some (JArr ms) \<longrightarrow>
      re_messages ?r = filter (\<lambda>m. m \<noteq> []) (map (\<lambda>m. strip (to_str e m)) ms)"
    by (auto simp: n obj_get_def normalized_messages_def filter_map comp_def)
  have ms2: "\<forall>s. dict_get d ''message_preview'' = Some (JStr s) \<longrightarrow>
      re_messages ?r = filter (\<lambda>m. m \<noteq> []) [strip s]"
    by (auto simp: n obj_get_def normalized_messages_def Let_def)
  have ms3: "\<forall>m \<in> set (re_messages ?r). m \<noteq> [] \<and> strip m = m"
    using normalized_messages_clean [of _ e "obj_get d ''message_preview''"]
    by (simp add: n)
  have dp: "\<forall>p. dict_get d ''detail_path'' = Some (JStr p) \<and> p \<noteq> [] \<longrightarrow>
      detail_path ?r = Some (resolve_under e dir p)"
    by (auto simp: n obj_get_def)
  have ld: "\<forall>md mt cache sid content d0.
           truthy (obj_get md ''repo_progress_index_path'')
           \<and> st_mtime e (to_str e (obj_get md ''repo_progress_index_path'')) = Some mt
           \<and> (\<forall>c. dict_get cache sid = Some c \<longrightarrow> ce_mtime c \<noteq> mt)
           \<and> read_text e (to_str e (obj_get md ''repo_progress_index_path'')) = Some content
           \<and> json_loads e content = Some (JObj d0)
           \<longrightarrow> (\<exists>ce. snd (load_repo_index_payload e cache sid md) = Inr (Some ce)
                 \<and> (dict_get d0 ''entries_dir'' = None
                        \<or> dict_get d0 ''entries_dir'' = Some (JStr []) \<longrightarrow>
                      ce_entries ce = normalize_repo_entries e (obj_get d0 ''entries'')
                        (parent_of e (to_str e (obj_get md ''repo_progress_index_path''))))
                 \<and> (\<forall>s. dict_get d0 ''entries_dir'' = Some (JStr s) \<and> s \<noteq> [] \<longrightarrow>
                      ce_entries ce = normalize_repo_entries e (obj_get d0 ''entries'') s))"
  proof (intro allI impI, elim conjE)
    fix md mt and cache :: "(string \<times> cache_entry) list" and sid content d0
    assume a: "truthy (obj_get md ''repo_progress_index_path'')"
      "st_mtime e (to_str e (obj_get md ''repo_progress_index_path'')) = Some mt"
      "\<forall>c. dict_get cache sid = Some c \<longrightarrow> ce_mtime c \<noteq> mt"
      and b: "read_text e (to_str e (obj_get md ''repo_progress_index_path'')) = Some content"
      "json_loads e content = Some (JObj d0)"
    show "\<exists>ce. snd (load_repo_index_payload e cache sid md) = Inr (Some ce)
                 \<and> (dict_get d0 ''entries_dir'' = None
                        \<or> dict_get d0 ''entries_dir'' = Some (JStr []) \<longrightarrow>
                      ce_entries ce = normalize_repo_entries e (obj_get d0 ''entries'')
                        (parent_of e (to_str e (obj_get md ''repo_progress_index_path''))))
                 \<and> (\<forall>s. dict_get d0 ''entries_dir'' = Some (JStr s) \<and> s \<noteq> [] \<longrightarrow>
                      ce_entries ce = normalize_repo_entries e (obj_get d0 ''entries'') s)"
      using b by (auto simp: load_miss [OF a] Let_def read_json_payload_def obj_get_def
          to_str_def)
  qed
  show ?thesis
    apply (rule exI [of _ ?r])
    apply (intro conjI)
               apply (fact r)
              apply (fact dn_ne)
             apply (fact dn)
            apply (fact st1)
           apply (fact st2)
          apply (fact up1)
         apply (fact up2)
        apply (fact ms1)
       apply (fact ms2)
      apply (fact ms3)
     apply (fact dp)
    apply (fact ld)
    done
qed

theorem C9_normalize_repo_entry_witness:
  "normalize_repo_entry readable_env
      (JObj [(''repo_id'', JStr ''r2''), (''status'', JStr ''''),
             (''message_preview'', JArr [JStr '' cloning '', JStr ''  '']),
             (''detail_path'', JStr ''r2.json'')]) ''/run'' =
     Some \<lparr>repo_id = ''r2'', display_name = ''r2'', re_status = ''pending'',
           updated_at = '''', re_messages = [''cloning''],
           detail_path = Some ''/run/r2.json''\<rparr>"
proof -
  have h: "\<forall>v. truthy v \<longrightarrow> str_of_value readable_env v \<noteq> []"
    by (simp add: readable_env_def example_env_def)
  have res: "resolve_under readable_env ''/run'' ''r2.json'' = ''/run/r2.json''"
    by (simp add: readable_env_def example_env_def)
  show ?thesis
    using C9_normalize_repo_entry [OF h,
        of "[(''repo_id'', JStr ''r2''), (''status'', JStr ''''),
             (''message_preview'', JArr [JStr '' cloning '', JStr ''  '']),
             (''detail_path'', JStr ''r2.json'')]" "''/run''"] res
    by (simp add: normalize_repo_entry_obj obj_get_def to_str_def normalized_messages_def
        strip_def is_space_def)
qed

subsection \<open>What a refresh leaves in the cache for an observed stage\<close>

lemma load_cong:
  "dict_get c1 sid = dict_get c2 sid \<Longrightarrow>
     load_repo_index_payload e c1 sid md = load_repo_index_payload e c2 sid md"
  unfolding load_repo_index_payload_def by (simp only:)

lemma distinct_fold_dict_set:
  "distinct (dict_keys acc) \<Longrightarrow>
     distinct (dict_keys (fold (\<lambda>(maybe_id, st) stages.
        dict_set (case st_id st of None \<Rightarrow> maybe_id | Some i \<Rightarrow> i) st stages) raw acc))"
  by (induction raw arbitrary: acc) (auto simp: distinct_update)

lemma distinct_build_stages: "distinct (dict_keys (build_stages raw))"
  unfolding build_stages_def by (rule distinct_fold_dict_set) simp

lemma refresh_loop_other:
  "sid \<notin> fst ` set stages \<Longrightarrow> refresh_loop e stages cache obs = (cache', obs', r) \<Longrightarrow>
     dict_get cache' sid = dict_get cache sid"
proof (induction stages arbitrary: cache obs)
  case Nil
  then show ?case by simp
next
  case (Cons p stages)
  obtain k st where p: "p = (k, st)" by (cases p)
  from Cons.prems(1) have k: "k \<noteq> sid" and rest: "sid \<notin> fst ` set stages"
    by (auto simp: p)
  show ?case
  proof (cases "snd (load_repo_index_payload e cache k (stage_metadata st))")
    case (Inl err)
    with Cons.prems(2) show ?thesis by (simp add: p)
  next
    case (Inr res)
    show ?thesis
    proof (cases res)
      case None
      with Inr Cons.prems(2)
      have "refresh_loop e stages (dict_pop k cache) (insert k obs) = (cache', obs', r)"
        by (simp add: p)
      from Cons.IH [OF rest this] k show ?thesis by simp
    next
      case (Some ce)
      with Inr Cons.prems(2)
      have "refresh_loop e stages (dict_set k ce cache) (insert k obs) = (cache', obs', r)"
        by (simp add: p)
      from Cons.IH [OF rest this] k show ?thesis by (simp add: update_conv')
    qed
  qed
qed

lemma refresh_loop_at:
  "distinct (dict_keys stages) \<Longrightarrow> (sid, st) \<in> set stages \<Longrightarrow>
   refresh_loop e stages cache obs = (cache', obs', None) \<Longrightarrow>
     snd (load_repo_index_payload e cache sid (stage_metadata st)) = Inr (dict_get cache' sid)"
proof (induction stages arbitrary: cache obs)
  case Nil
  then show ?case by simp
next
  case (Cons p stages)
  obtain k st0 where p: "p = (k, st0)" by (cases p)
  from Cons.prems(1) have d: "distinct (dict_keys stages)" and kn: "k \<notin> fst ` set stages"
    by (auto simp: p)
  show ?case
  proof (cases "snd (load_repo_index_payload e cache k (stage_metadata st0))")
    case (Inl err)
    with Cons.prems(3) show ?thesis by (simp add: p)
  next
    case (Inr res)
    define cache1 where "cache1 = (case res of None \<Rightarrow> dict_pop k cache
                                   | Some ce \<Rightarrow> dict_set k ce cache)"
    have loop: "refresh_loop e stages cache1 (insert k obs) = (cache', obs', None)"
      using Inr Cons.prems(3) by (cases res) (simp_all add: p cache1_def)
    show ?thesis
    proof (cases "k = sid")
      case True
      with Cons.prems(2) kn have st: "st0 = st"
        by (auto simp: p image_iff)
      have "dict_get cache' sid = dict_get cache1 sid"
        using refresh_loop_other [OF _ loop, of sid] kn True by simp
      also have "\<dots> = res"
        using True by (cases res) (simp_all add: cache1_def delete_conv' update_conv')
      finally show ?thesis
        using Inr True st by simp
    next
      case False
      with Cons.prems(2) have mem: "(sid, st) \<in> set stages"
        by (simp add: p)
      have same: "dict_get cache1 sid = dict_get cache sid"
        using False by (cases res) (simp_all add: cache1_def update_conv')
      from Cons.IH [OF d mem loop] load_cong [OF same, of e "stage_metadata st"]
      show ?thesis by simp
    qed
  qed
qed

lemma refresh_details_at:
  assumes "distinct (dict_keys stages)" and "(sid, st) \<in> set stages"
    and "refresh_stage_repo_details e w stages = (w', None)"
  shows "snd (load_repo_index_payload e (repo_index_cache w) sid (stage_metadata st)) =
           Inr (dict_get (repo_index_cache w') sid)"
proof -
  from refresh_details_cache [OF assms(3)] obtain cache where
    loop: "refresh_loop e stages (repo_index_cache w) {} = (cache, set (dict_keys stages), None)"
    and c: "repo_index_cache w' = prune_stale_repo_cache cache (set (dict_keys stages))"
    by blast
  have "sid \<in> set (dict_keys stages)"
    using assms(2) by (force simp: image_iff)
  then have "dict_get (repo_index_cache w') sid = dict_get cache sid"
    unfolding c by (rule dict_get_prune)
  with refresh_loop_at [OF assms(1) assms(2) loop] show ?thesis by simp
qed

lemma update_from_snapshot_at:
  assumes "(sid, st) \<in> set (build_stages raw)"
    and "update_from_snapshot e w raw = (w', None)"
  shows "snd (load_repo_index_payload e (repo_index_cache w) sid (stage_metadata st)) =
           Inr (dict_get (repo_index_cache w') sid)"
proof -
  let ?r = "refresh_stage_repo_details e (fst (merge_stages w (build_stages raw)))
              (build_stages raw)"
  have "snd ?r = None"
    using assms(2) update_from_snapshot_err [of e w raw] by simp
  then have r: "?r = (fst ?r, None)"
    by (metis prod.collapse)
  have "repo_index_cache w' = repo_index_cache (fst ?r)"
    using assms(2) update_from_snapshot_cache [of e w raw] by simp
  with refresh_details_at [OF distinct_build_stages assms(1) r] show ?thesis
    by (simp add: merge_stages_fields)
qed

text \<open>
  Claim C3, as the code has it. Take a stage of the snapshot whose metadata names
  an index file that \<^verbatim>\<open>stat\<close> can read, whose modification time is not the cached
  one, and whose text does not decode. The load reads the file, tries to decode
  it and returns no data, and it does not write the cache; but the refresh that
  called it pops the stage's key: after an update that returns, the cache has no
  entry for the stage, whatever it held before.
\<close>

theorem C3_undecodable_index_evicts:
  assumes "(sid, st) \<in> set (build_stages raw)"
    and "truthy (obj_get (stage_metadata st) ''repo_progress_index_path'')"
    and "st_mtime e (to_str e (obj_get (stage_metadata st) ''repo_progress_index_path'')) = Some mt"
    and "\<forall>c. dict_get (repo_index_cache w) sid = Some c \<longrightarrow> ce_mtime c \<noteq> mt"
    and "read_text e (to_str e (obj_get (stage_metadata st) ''repo_progress_index_path'')) =
           Some content"
    and "json_loads e content = None"
    and "update_from_snapshot e w raw = (w', None)"
  shows "load_repo_index_payload e (repo_index_cache w) sid (stage_metadata st) =
           ([ReadText (to_str e (obj_get (stage_metadata st) ''repo_progress_index_path'')),
             JsonLoads content], Inr None)
         \<and> dict_get (repo_index_cache w') sid = None"
proof -
  have l: "load_repo_index_payload e (repo_index_cache w) sid (stage_metadata st) =
           ([ReadText (to_str e (obj_get (stage_metadata st) ''repo_progress_index_path'')),
             JsonLoads content], Inr None)"
    using assms(5,6) by (simp add: load_miss [OF assms(2,3,4)] Let_def read_json_payload_def)
  with update_from_snapshot_at [OF assms(1) assms(7)] show ?thesis
    by simp
qed

theorem C3_undecodable_index_evicts_witness:
  "dict_get (repo_index_cache (fst (update_from_snapshot example_env cached_widget
      [(''alpha'', indexed_stage ''alpha'' ''Alpha'')]))) ''alpha'' = None"
proof -
  let ?raw = "[(''alpha'', indexed_stage ''alpha'' ''Alpha'')]"
  let ?st = "indexed_stage ''alpha'' ''Alpha''"
  have p: "to_str e (obj_get (stage_metadata ?st) ''repo_progress_index_path'') =
      ''/run/index.json''" for e
    by (simp add: indexed_stage_def stage_metadata_def obj_get_def to_str_def)
  have a1: "(''alpha'', ?st) \<in> set (build_stages ?raw)"
    by (simp add: build_stages_def indexed_stage_def)
  have a2: "truthy (obj_get (stage_metadata ?st) ''repo_progress_index_path'')"
    by (simp add: indexed_stage_def stage_metadata_def obj_get_def)
  have a3: "st_mtime example_env
      (to_str example_env (obj_get (stage_metadata ?st) ''repo_progress_index_path'')) = Some 2"
    by (simp add: p example_env_def)
  have a4: "\<forall>c. dict_get (repo_index_cache cached_widget) ''alpha'' = Some c \<longrightarrow>
      ce_mtime c \<noteq> 2"
    by (simp add: cached_widget_def)
  have a5: "read_text example_env
      (to_str example_env (obj_get (stage_metadata ?st) ''repo_progress_index_path'')) =
        Some ''{''"
    by (simp add: p example_env_def)
  have a6: "json_loads example_env ''{'' = None"
    by (simp add: example_env_def)
  have a7: "update_from_snapshot example_env cached_widget ?raw =
      (fst (update_from_snapshot example_env cached_widget ?raw), None)"
    by (simp add: eval_defs example_defs read_json_payload_def safe_stat_def to_str_def)
  from C3_undecodable_index_evicts [OF a1 a2 a3 a4 a5 a6 a7] show ?thesis
    by simp
qed

text \<open>
  The claim as stated fails: the widget holds a cached entry for alpha, the index
  file has changed and no longer decodes, the load returns no data, and after the
  refresh the entry is gone instead of persisting.
\<close>

theorem C3_cached_entry_persists_counterexample:
  "dict_get (repo_index_cache cached_widget) ''alpha'' \<noteq> None
   \<and> st_mtime example_env ''/run/index.json'' = Some 2
   \<and> read_text example_env ''/run/index.json'' = Some ''{''
   \<and> json_loads example_env ''{'' = None
   \<and> snd (load_repo_index_payload example_env (repo_index_cache cached_widget) ''alpha''
        (stage_metadata (indexed_stage ''alpha'' ''Alpha''))) = Inr None
   \<and> dict_get (repo_index_cache (fst (refresh_stage_repo_details example_env cached_widget
        [(''alpha'', indexed_stage ''alpha'' ''Alpha'')]))) ''alpha'' = None"
  by (simp add: eval_defs example_defs read_json_payload_def safe_stat_def to_str_def)

subsection \<open>The aggregate flag\<close>

lemma apply_stage_state_flag:
  "snd (apply_stage_state it t status ms) = (lower (status_text_of status) \<in> DONE_STATUSES)"
  by (simp add: apply_stage_state_def Let_def)

lemma stage_loop_flag:
  "snd (stage_loop stages its defs rows all_done) =
     (all_done \<and> (\<forall>(sid, title) \<in> set defs. dict_get its sid \<noteq> None \<longrightarrow> stage_done stages sid))"
proof (induction defs arbitrary: rows all_done)
  case Nil
  then show ?case by simp
next
  case (Cons d defs)
  obtain sid title where d: "d = (sid, title)" by (cases d)
  show ?case
  proof (cases "dict_get its sid")
    case None
    then show ?thesis by (simp add: d Cons.IH)
  next
    case (Some r)
    then show ?thesis
      using apply_stage_state_flag [of "rows ! r" title "stage_status (dict_get stages sid)"
          "stage_messages (dict_get stages sid)"]
      by (auto simp: d Cons.IH Let_def case_prod_beta stage_done_def)
  qed
qed

lemma merge_stages_flag:
  "snd (merge_stages w stages) =
     (\<forall>(sid, title) \<in> set (stage_definitions (fst (merge_stages w stages))).
        dict_get (items (fst (merge_stages w stages))) sid \<noteq> None \<longrightarrow> stage_done stages sid)"
  by (simp add: merge_stages_def Let_def case_prod_beta stage_loop_flag)

lemma update_from_snapshot_label:
  assumes "update_from_snapshot e w raw = (w', None)"
    and "build_stages raw \<noteq> []" and "\<not> completion_triggered w"
  shows "status_label w' =
     (if snd (merge_stages w (build_stages raw))
      then ''All stages reported. Waiting for tooling shutdown...''
      else ''Tracking orchestration stages...'')"
proof -
  have "snd (refresh_stage_repo_details e (fst (merge_stages w (build_stages raw)))
      (build_stages raw)) = None"
    using assms(1) update_from_snapshot_err [of e w raw] by simp
  then show ?thesis
    using assms by (auto simp: update_from_snapshot_eq Let_def)
qed

text \<open>
  Claim C2. The value of \<^verbatim>\<open>all_done\<close> after the two loops of an update is true
  exactly when every stage definition that has an item has a done-status in the
  snapshot. When the update returns, the snapshot has stages and completion has
  not been triggered, the banner records it: the all-stages-reported text for
  true, the tracking text for false. One poll of the snapshot of the pending
  stages alpha and beta, from a widget constructed with no stage or with both,
  gives the rows \<open>''Alpha - pending''\<close> and \<open>''Beta - pending''\<close>, a false flag and the
  tracking banner.
\<close>

theorem C2_all_done_flag:
  "snd (merge_stages w stages) =
     (\<forall>(sid, title) \<in> set (stage_definitions (fst (merge_stages w stages))).
        dict_get (items (fst (merge_stages w stages))) sid \<noteq> None \<longrightarrow> stage_done stages sid)
   \<and> (update_from_snapshot e w raw = (w', None) \<and> build_stages raw \<noteq> []
        \<and> \<not> completion_triggered w \<longrightarrow>
      status_label w' =
        (if \<forall>(sid, title) \<in> set (stage_definitions w').
              dict_get (items w') sid \<noteq> None \<longrightarrow> stage_done (build_stages raw) sid
         then ''All stages reported. Waiting for tooling shutdown...''
         else ''Tracking orchestration stages...''))
   \<and> map item_text (checklist (fst (refresh_snapshot example_env (init_widget [])
        (Some alpha_beta) False))) = [''Alpha - pending'', ''Beta - pending'']
   \<and> map item_text (checklist (fst (refresh_snapshot example_env
        (init_widget [(''alpha'', ''Alpha''), (''beta'', ''Beta'')])
        (Some alpha_beta) False))) = [''Alpha - pending'', ''Beta - pending'']
   \<and> \<not> snd (merge_stages (init_widget []) (build_stages alpha_beta))
   \<and> status_label (fst (refresh_snapshot example_env (init_widget [])
        (Some alpha_beta) False)) = ''Tracking orchestration stages...''"
proof (intro conjI impI)
  show "snd (merge_stages w stages) =
     (\<forall>(sid, title) \<in> set (stage_definitions (fst (merge_stages w stages))).
        dict_get (items (fst (merge_stages w stages))) sid \<noteq> None \<longrightarrow> stage_done stages sid)"
    by (rule merge_stages_flag)
next
  assume a: "update_from_snapshot e w raw = (w', None) \<and> build_stages raw \<noteq> []
        \<and> \<not> completion_triggered w"
  then have w': "w' = fst (update_from_snapshot e w raw)" by simp
  have "stage_definitions w' = stage_definitions (fst (merge_stages w (build_stages raw)))"
    "items w' = items (fst (merge_stages w (build_stages raw)))"
    unfolding w' by (simp_all only: update_from_snapshot_fields)
  then have "snd (merge_stages w (build_stages raw)) =
      (\<forall>(sid, title) \<in> set (stage_definitions w').
          dict_get (items w') sid \<noteq> None \<longrightarrow> stage_done (build_stages raw) sid)"
    using merge_stages_flag [of w "build_stages raw"] by simp
  with a update_from_snapshot_label [of e w raw w']
  show "status_label w' =
        (if \<forall>(sid, title) \<in> set (stage_definitions w').
              dict_get (items w') sid \<noteq> None \<longrightarrow> stage_done (build_stages raw) sid
         then ''All stages reported. Waiting for tooling shutdown...''
         else ''Tracking orchestration stages...'')"
    by simp
next
  show "map item_text (checklist (fst (refresh_snapshot example_env (init_widget [])
        (Some alpha_beta) False))) = [''Alpha - pending'', ''Beta - pending'']"
    by (simp add: eval_defs)
next
  show "map item_text (checklist (fst (refresh_snapshot example_env
        (init_widget [(''alpha'', ''Alpha''), (''beta'', ''Beta'')])
        (Some alpha_beta) False))) = [''Alpha - pending'', ''Beta - pending'']"
    by (simp add: eval_defs)
next
  show "\<not> snd (merge_stages (init_widget []) (build_stages alpha_beta))"
    by (simp add: eval_defs)
next
  show "status_label (fst (refresh_snapshot example_env (init_widget [])
        (Some alpha_beta) False)) = ''Tracking orchestration stages...''"
    by (simp add: eval_defs)
qed

theorem C2_all_done_flag_witness:
  "status_label (fst (update_from_snapshot example_env (init_widget [(''alpha'', ''Alpha'')])
      [(''alpha'', (pending_stage ''alpha'' ''Alpha'')\<lparr>st_status := Has ''Completed''\<rparr>),
       (''beta'', (pending_stage ''beta'' ''Beta'')\<lparr>st_status := Has ''BLOCKED''\<rparr>)])) =
     ''All stages reported. Waiting for tooling shutdown...''"
proof -
  let ?raw = "[(''alpha'', (pending_stage ''alpha'' ''Alpha'')\<lparr>st_status := Has ''Completed''\<rparr>),
       (''beta'', (pending_stage ''beta'' ''Beta'')\<lparr>st_status := Has ''BLOCKED''\<rparr>)]"
  let ?w = "init_widget [(''alpha'', ''Alpha'')]"
  let ?w' = "fst (update_from_snapshot example_env ?w ?raw)"
  have a: "update_from_snapshot example_env ?w ?raw = (?w', None)"
    by (simp add: eval_defs)
  have b: "build_stages ?raw \<noteq> []"
    by (simp add: build_stages_def pending_stage_def)
  have c: "\<not> completion_triggered ?w"
    by (simp add: init_widget_def build_ui_def Let_def add_definition_item_def)
  have d: "\<forall>(sid, title) \<in> set (stage_definitions ?w').
      dict_get (items ?w') sid \<noteq> None \<longrightarrow> stage_done (build_stages ?raw) sid"
    by (simp add: eval_defs stage_done_def)
  from C2_all_done_flag [of ?w "build_stages ?raw" example_env ?raw ?w'] a b c d
  show ?thesis
    by simp
qed

subsection \<open>Rows of the checklist\<close>

lemma set_dict_set: "set (dict_set k v d) \<subseteq> insert (k, v) (set d)"
  by (induction d) auto

lemma distinct_snd_dict_set:
  "distinct (map snd d) \<Longrightarrow> v \<notin> snd ` set d \<Longrightarrow> distinct (map snd (dict_set k v d))"
proof (induction d)
  case Nil
  then show ?case by simp
next
  case (Cons p d)
  obtain k' v' where p: "p = (k', v')" by (cases p)
  have "snd ` set (dict_set k v d) \<subseteq> insert v (snd ` set d)"
    using set_dict_set [of k v d] by force
  with Cons show ?case
    by (auto simp: p)
qed

lemma wf_append_row:
  assumes "wf_widget w"
  shows "wf_widget (w\<lparr>checklist := checklist w @ [it],
                      items := dict_set k (length (checklist w)) (items w)\<rparr>)"
proof -
  have fresh: "length (checklist w) \<notin> snd ` set (items w)"
    using assms by (force simp: wf_widget_def)
  have "\<forall>(k', r) \<in> set (dict_set k (length (checklist w)) (items w)).
      r < length (checklist w @ [it])"
    using assms set_dict_set [of k "length (checklist w)" "items w"]
    by (fastforce simp: wf_widget_def)
  moreover have "distinct (map snd (dict_set k (length (checklist w)) (items w)))"
    using assms fresh by (simp add: wf_widget_def distinct_snd_dict_set)
  ultimately show ?thesis
    by (simp add: wf_widget_def)
qed

lemma wf_status_label: "wf_widget (w\<lparr>status_label := s\<rparr>) = wf_widget w"
  by (simp add: wf_widget_def)

lemma wf_stage_definitions: "wf_widget (w\<lparr>stage_definitions := ds\<rparr>) = wf_widget w"
  by (simp add: wf_widget_def)

lemma wf_add_definition_item: "wf_widget w \<Longrightarrow> wf_widget (add_definition_item d w)"
  using wf_append_row [of w] by (cases d) (simp add: add_definition_item_def)

lemma wf_fold_add_definition: "wf_widget w \<Longrightarrow> wf_widget (fold add_definition_item ds w)"
  by (induction ds arbitrary: w) (simp_all add: wf_add_definition_item)

lemma wf_cong:
  "checklist w' = checklist w \<Longrightarrow> items w' = items w \<Longrightarrow> wf_widget w' = wf_widget w"
  by (simp add: wf_widget_def)

lemma wf_init_widget: "wf_widget (init_widget defs)"
proof -
  let ?w0 = "\<lparr>stage_definitions = defs, checklist = [], items = [],
               selected_data = None, selected_stage_id = None,
               completion_triggered = False, repo_index_cache = [],
               status_label = ''Initializing orchestration tooling...'', detail_table = [],
               timer_active = False, timer_stops = 0, board_completed = 0\<rparr>"
  let ?w1 = "fold add_definition_item defs ?w0"
  have "wf_widget ?w0" by (simp add: wf_widget_def)
  then have "wf_widget ?w1"
    by (rule wf_fold_add_definition)
  moreover have "checklist (init_widget defs) = checklist ?w1"
    "items (init_widget defs) = items ?w1"
    by (simp_all add: init_widget_def build_ui_def Let_def split: list.splits)
  ultimately show ?thesis
    using wf_cong [of "init_widget defs" ?w1] by simp
qed

lemma wf_discover_stage: "wf_widget w \<Longrightarrow> wf_widget (discover_stage p w)"
proof (cases p)
  case (Pair sid st)
  assume w: "wf_widget w"
  show ?thesis
  proof (cases "dict_get (items w) sid")
    case None
    have "wf_widget ((w\<lparr>checklist := checklist w @
               [\<lparr>item_text = '''', item_data = sid, item_editable = False,
                 item_check = Unchecked\<rparr>],
             items := dict_set sid (length (checklist w)) (items w)\<rparr>)
          \<lparr>stage_definitions := stage_definitions w @
             [(sid, case st_title st of None \<Rightarrow> sid | Some t \<Rightarrow> t)]\<rparr>)"
      unfolding wf_stage_definitions using w by (rule wf_append_row)
    then show ?thesis
      using None by (simp add: Pair discover_stage_def Let_def)
  next
    case (Some r)
    then show ?thesis using w by (simp add: Pair discover_stage_def)
  qed
qed

lemma wf_fold_discover: "wf_widget w \<Longrightarrow> wf_widget (fold discover_stage ps w)"
  by (induction ps arbitrary: w) (simp_all add: wf_discover_stage)

lemma stage_loop_length:
  "length (fst (stage_loop stages its defs rows all_done)) = length rows"
proof (induction defs arbitrary: rows all_done)
  case Nil
  then show ?case by simp
next
  case (Cons d defs)
  obtain sid title where d: "d = (sid, title)" by (cases d)
  show ?case
    by (cases "dict_get its sid") (simp_all add: d Cons.IH Let_def case_prod_beta)
qed

lemma stage_loop_append:
  "stage_loop stages its (xs @ ys) rows all_done =
     stage_loop stages its ys (fst (stage_loop stages its xs rows all_done))
       (snd (stage_loop stages its xs rows all_done))"
proof (induction xs arbitrary: rows all_done)
  case Nil
  then show ?case by simp
next
  case (Cons d xs)
  obtain sid title where d: "d = (sid, title)" by (cases d)
  show ?case
    by (cases "dict_get its sid") (simp_all add: d Cons.IH Let_def case_prod_beta)
qed

lemma stage_loop_untouched:
  "\<forall>(s, t) \<in> set defs. dict_get its s \<noteq> Some r \<Longrightarrow>
     fst (stage_loop stages its defs rows all_done) ! r = rows ! r"
proof (induction defs arbitrary: rows all_done)
  case Nil
  then show ?case by simp
next
  case (Cons d defs)
  obtain sid title where d: "d = (sid, title)" by (cases d)
  from Cons.prems have rest: "\<forall>(s, t) \<in> set defs. dict_get its s \<noteq> Some r"
    and here: "dict_get its sid \<noteq> Some r"
    by (auto simp: d)
  show ?case
  proof (cases "dict_get its sid")
    case None
    then show ?thesis by (simp add: d Cons.IH [OF rest])
  next
    case (Some r')
    with here have "r' \<noteq> r" by simp
    then show ?thesis
      using Some by (simp add: d Cons.IH [OF rest] Let_def case_prod_beta)
  qed
qed

lemma dict_get_inj:
  assumes "distinct (map snd its)" and "dict_get its a = Some r" and "dict_get its b = Some r"
  shows "a = b"
proof -
  have "(a, r) \<in> set its" "(b, r) \<in> set its"
    using assms(2,3) by (auto dest: map_of_SomeD)
  moreover have "inj_on snd (set its)"
    using assms(1) by (simp add: distinct_map)
  ultimately show ?thesis
    using inj_onD [of snd "set its" "(a, r)" "(b, r)"] by simp
qed

lemma stage_loop_row:
  assumes "distinct (map snd its)" and "dict_get its sid = Some r" and "r < length rows"
    and "sid \<notin> fst ` set post"
  shows "fst (stage_loop stages its (pre @ (sid, title) # post) rows all_done) ! r =
     fst (apply_stage_state (fst (stage_loop stages its pre rows all_done) ! r) title
            (stage_status (dict_get stages sid)) (stage_messages (dict_get stages sid)))"
proof -
  let ?rows1 = "fst (stage_loop stages its pre rows all_done)"
  let ?ad1 = "snd (stage_loop stages its pre rows all_done)"
  let ?a = "apply_stage_state (?rows1 ! r) title
              (stage_status (dict_get stages sid)) (stage_messages (dict_get stages sid))"
  have len: "r < length ?rows1"
    using assms(3) by (simp add: stage_loop_length)
  have other: "\<forall>(s, t) \<in> set post. dict_get its s \<noteq> Some r"
  proof (clarify)
    fix s t
    assume "(s, t) \<in> set post" and "dict_get its s = Some r"
    with dict_get_inj [OF assms(1) this(2) assms(2)] assms(4) show False
      by force
  qed
  have "stage_loop stages its (pre @ (sid, title) # post) rows all_done =
      stage_loop stages its post (?rows1[r := fst ?a]) (?ad1 \<and> snd ?a)"
    by (simp add: stage_loop_append [of stages its pre] assms(2) Let_def case_prod_beta)
  then show ?thesis
    using len by (simp add: stage_loop_untouched [OF other])
qed

lemma merge_stages_checklist:
  "checklist (fst (merge_stages w stages)) =
     fst (stage_loop stages (items (fold discover_stage stages w))
            (stage_definitions (fold discover_stage stages w))
            (checklist (fold discover_stage stages w)) True)"
  by (simp add: merge_stages_def Let_def case_prod_beta)

lemma merge_stages_row:
  assumes "wf_widget w"
    and "stage_definitions (fst (merge_stages w stages)) = pre @ (sid, title) # post"
    and "sid \<notin> fst ` set post"
    and "dict_get (items (fst (merge_stages w stages))) sid = Some r"
  shows "r < length (checklist (fst (merge_stages w stages)))"
    and "item_text (checklist (fst (merge_stages w stages)) ! r) =
           title @ '' - '' @ status_text_of (stage_status (dict_get stages sid))
             @ message_suffix (stage_messages (dict_get stages sid))"
    and "item_check (checklist (fst (merge_stages w stages)) ! r) =
           check_state_for_status (lower (status_text_of (stage_status (dict_get stages sid))))"
proof -
  let ?w1 = "fold discover_stage stages w"
  have wf1: "wf_widget ?w1"
    using assms(1) by (rule wf_fold_discover)
  have its: "dict_get (items ?w1) sid = Some r"
    using assms(4) by (simp add: merge_stages_fields)
  have defs: "stage_definitions ?w1 = pre @ (sid, title) # post"
    using assms(2) by (simp add: merge_stages_fields)
  have "(sid, r) \<in> set (items ?w1)"
    using its by (rule map_of_SomeD)
  then have len: "r < length (checklist ?w1)"
    using wf1 by (auto simp: wf_widget_def)
  have inj: "distinct (map snd (items ?w1))"
    using wf1 by (simp add: wf_widget_def)
  show "r < length (checklist (fst (merge_stages w stages)))"
    using len by (simp add: merge_stages_checklist stage_loop_length)
  note row = stage_loop_row [OF inj its len assms(3), of stages pre title True]
  show "item_text (checklist (fst (merge_stages w stages)) ! r) =
           title @ '' - '' @ status_text_of (stage_status (dict_get stages sid))
             @ message_suffix (stage_messages (dict_get stages sid))"
    by (simp only: merge_stages_checklist defs row item_text_apply)
  show "item_check (checklist (fst (merge_stages w stages)) ! r) =
           check_state_for_status (lower (status_text_of (stage_status (dict_get stages sid))))"
    by (simp only: merge_stages_checklist defs row item_check_apply)
qed

subsection \<open>Every widget an event loop reaches is well-formed\<close>

lemma wf_length_cong:
  "length (checklist w') = length (checklist w) \<Longrightarrow> items w' = items w \<Longrightarrow>
     wf_widget w' = wf_widget w"
  by (simp add: wf_widget_def)

lemma wf_merge_stages: "wf_widget w \<Longrightarrow> wf_widget (fst (merge_stages w stages))"
  using wf_length_cong [of "fst (merge_stages w stages)" "fold discover_stage stages w"]
  by (simp add: merge_stages_checklist stage_loop_length merge_stages_fields wf_fold_discover)

lemma wf_update_from_snapshot:
  "wf_widget w \<Longrightarrow> wf_widget (fst (update_from_snapshot e w raw))"
  using wf_cong [of "fst (update_from_snapshot e w raw)" "fst (merge_stages w (build_stages raw))"]
  by (simp add: update_from_snapshot_fields wf_merge_stages)

lemma handle_completion_checklist: "checklist (handle_completion w) = checklist w"
  by (simp add: handle_completion_def)

lemma wf_refresh_snapshot:
  assumes "wf_widget w"
  shows "wf_widget (fst (refresh_snapshot e w snap d))"
proof (cases snap)
  case None
  then show ?thesis
    using assms by (simp add: refresh_snapshot_def wf_status_label)
next
  case (Some raw)
  have "items (fst (refresh_snapshot e w (Some raw) d)) =
      items (fst (update_from_snapshot e w raw))"
    "checklist (fst (refresh_snapshot e w (Some raw) d)) =
      checklist (fst (update_from_snapshot e w raw))"
    by (cases "update_from_snapshot e w raw";
        auto simp: refresh_snapshot_def handle_completion_items handle_completion_checklist
          split: option.splits)+
  then show ?thesis
    using wf_cong [of "fst (refresh_snapshot e w (Some raw) d)"
        "fst (update_from_snapshot e w raw)"] wf_update_from_snapshot [OF assms, of e raw] Some
    by simp
qed

lemma wf_handle_stage_selection: "wf_widget (handle_stage_selection w) = wf_widget w"
  by (rule wf_cong)
    (simp_all add: handle_stage_selection_def Let_def update_detail_view_fields)

lemma wf_step: "wf_widget w \<Longrightarrow> wf_widget (step w ev)"
proof (cases ev)
  case (Tick e snap d)
  assume "wf_widget w"
  then show ?thesis
    by (simp add: Tick wf_refresh_snapshot)
next
  case (SelectRow r)
  assume w: "wf_widget w"
  have "wf_widget (w\<lparr>selected_data := x\<rparr>)" for x
    using w by (simp add: wf_widget_def)
  then show ?thesis
    using w by (cases r) (simp_all add: SelectRow wf_handle_stage_selection)
next
  case Close
  assume "wf_widget w"
  then show ?thesis
    by (simp add: Close closeEvent_def wf_widget_def)
qed

lemma wf_run: "wf_widget w \<Longrightarrow> wf_widget (run w evs)"
  unfolding run_def by (induction evs arbitrary: w) (simp_all add: wf_step)

lemma wf_reachable: "wf_widget (run (init_widget defs) evs)"
  by (rule wf_run) (rule wf_init_widget)

subsection \<open>Stages shown as pending\<close>

lemma pending_by_default:
  assumes "dict_get stages sid = None
           \<or> (\<exists>st. dict_get stages sid = Some st \<and> st_status st \<in> {Missing, IsNone, Has []})"
  shows "status_text_of (stage_status (dict_get stages sid)) = ''pending''"
  using assms by (auto simp: stage_status_def status_text_of_def)

lemma check_state_pending: "check_state_for_status (lower ''pending'') = Unchecked"
  by (simp add: check_state_for_status_def DONE_STATUSES_def lower_def lower_char_def
      upper_lower_def strip_def is_space_def)

lemma pending_stage_not_done:
  "status_text_of (stage_status (dict_get stages sid)) = ''pending'' \<Longrightarrow>
     \<not> stage_done stages sid"
  by (simp add: stage_done_def DONE_STATUSES_def lower_def lower_char_def upper_lower_def)

text \<open>
  Claim C10, as the code has it. Take a well-formed widget, an update from a
  snapshot, and a stage id with an item whose last stage definition has the title
  \<open>title\<close>. When the id is not among the stages of the snapshot, or its stage has
  a status that is missing, \<^verbatim>\<open>None\<close> or empty, the item's text after the update is
  the title, \<open>'' - pending''\<close> and the message suffix of the stage's messages, which
  is empty for an absent stage; its check state is \<open>Unchecked\<close>; \<^verbatim>\<open>all_done\<close> is
  false, and the banner is the tracking one when the update returns, the
  snapshot has stages and completion has not been triggered.
\<close>

theorem C10_pending_by_default:
  assumes "wf_widget w"
    and "update_from_snapshot e w raw = (w', err)"
    and "stage_definitions w' = pre @ (sid, title) # post"
    and "sid \<notin> fst ` set post"
    and "dict_get (items w') sid = Some r"
    and "dict_get (build_stages raw) sid = None
         \<or> (\<exists>st. dict_get (build_stages raw) sid = Some st
                \<and> st_status st \<in> {Missing, IsNone, Has []})"
  shows "r < length (checklist w')
     \<and> item_text (checklist w' ! r) =
         title @ '' - pending'' @ message_suffix (stage_messages (dict_get (build_stages raw) sid))
     \<and> (dict_get (build_stages raw) sid = None \<longrightarrow>
          item_text (checklist w' ! r) = title @ '' - pending'')
     \<and> item_check (checklist w' ! r) = Unchecked
     \<and> \<not> snd (merge_stages w (build_stages raw))
     \<and> (err = None \<and> build_stages raw \<noteq> [] \<and> \<not> completion_triggered w \<longrightarrow>
          status_label w' = ''Tracking orchestration stages...'')"
proof -
  let ?stages = "build_stages raw"
  let ?m = "fst (merge_stages w ?stages)"
  have w': "w' = fst (update_from_snapshot e w raw)"
    using assms(2) by simp
  have same: "stage_definitions w' = stage_definitions ?m" "items w' = items ?m"
    "checklist w' = checklist ?m"
    unfolding w' by (simp_all only: update_from_snapshot_fields)
  have defs: "stage_definitions ?m = pre @ (sid, title) # post"
    using assms(3) same by simp
  have its: "dict_get (items ?m) sid = Some r"
    using assms(5) same by simp
  note row = merge_stages_row [OF assms(1) defs assms(4) its]
  note pend = pending_by_default [OF assms(6)]
  have len: "r < length (checklist w')"
    using row(1) same by simp
  have text1: "item_text (checklist w' ! r) =
      title @ '' - pending'' @ message_suffix (stage_messages (dict_get ?stages sid))"
    using row(2) same pend by simp
  have text2: "item_text (checklist w' ! r) = title @ '' - pending''"
    if "dict_get ?stages sid = None"
    using text1 that by (simp add: stage_messages_def message_suffix_def)
  have chk: "item_check (checklist w' ! r) = Unchecked"
    using row(3) same pend by (simp add: check_state_pending)
  have "(sid, title) \<in> set (stage_definitions ?m)"
    using defs by simp
  then have flag: "\<not> snd (merge_stages w ?stages)"
    using its pending_stage_not_done [OF pend]
    by (subst merge_stages_flag) force
  have banner: "status_label w' = ''Tracking orchestration stages...''"
    if "err = None \<and> build_stages raw \<noteq> [] \<and> \<not> completion_triggered w"
    using update_from_snapshot_label [of e w raw w'] assms(2) that flag by simp
  from len text1 text2 chk flag banner show ?thesis
    by blast
qed

theorem C10_pending_by_default_witness:
  "item_text (checklist (fst (update_from_snapshot example_env
      (init_widget [(''environment'', ''Environment'')])
      [(''alpha'', (pending_stage ''alpha'' ''Alpha'')
                     \<lparr>st_status := IsNone, st_messages := Some [''queued '']\<rparr>)])) ! 0) =
     ''Environment - pending''
   \<and> item_text (checklist (fst (update_from_snapshot example_env
      (init_widget [(''environment'', ''Environment'')])
      [(''alpha'', (pending_stage ''alpha'' ''Alpha'')
                     \<lparr>st_status := IsNone, st_messages := Some [''queued '']\<rparr>)])) ! 1) =
     ''Alpha - pending (queued)''"
proof -
  let ?raw = "[(''alpha'', (pending_stage ''alpha'' ''Alpha'')
                     \<lparr>st_status := IsNone, st_messages := Some [''queued '']\<rparr>)]"
  let ?w = "init_widget [(''environment'', ''Environment'')]"
  let ?w' = "fst (update_from_snapshot example_env ?w ?raw)"
  have u: "update_from_snapshot example_env ?w ?raw = (?w', snd (update_from_snapshot example_env ?w ?raw))"
    by simp
  have defs: "stage_definitions ?w' = [] @ (''environment'', ''Environment'') # [(''alpha'', ''Alpha'')]"
    "stage_definitions ?w' = [(''environment'', ''Environment'')] @ (''alpha'', ''Alpha'') # []"
    by (simp_all add: eval_defs)
  have its: "dict_get (items ?w') ''environment'' = Some 0" "dict_get (items ?w') ''alpha'' = Some 1"
    by (simp_all add: eval_defs)
  have st: "build_stages ?raw = [(''alpha'', (pending_stage ''alpha'' ''Alpha'')
                     \<lparr>st_status := IsNone, st_messages := Some [''queued '']\<rparr>)]"
    by (simp add: build_stages_def pending_stage_def)
  have env: "dict_get (build_stages ?raw) ''environment'' = None
         \<or> (\<exists>st. dict_get (build_stages ?raw) ''environment'' = Some st
                \<and> st_status st \<in> {Missing, IsNone, Has []})"
    by (simp add: st)
  have alpha: "dict_get (build_stages ?raw) ''alpha'' = None
         \<or> (\<exists>st. dict_get (build_stages ?raw) ''alpha'' = Some st
                \<and> st_status st \<in> {Missing, IsNone, Has []})"
    by (simp add: st)
  have sfx: "message_suffix (stage_messages (dict_get (build_stages ?raw) ''alpha'')) = '' (queued)''"
    by (simp add: st stage_messages_def message_suffix_def strip_def is_space_def)
  have n1: "''environment'' \<notin> fst ` set [(''alpha'', ''Alpha'')]" by simp
  have n2: "''alpha'' \<notin> fst ` set ([] :: (string \<times> string) list)" by simp
  have e0: "dict_get (build_stages ?raw) ''environment'' = None"
    by (simp add: st)
  from C10_pending_by_default [OF wf_init_widget u defs(1) n1 its(1) env] e0
  have t1: "item_text (checklist ?w' ! 0) = ''Environment'' @ '' - pending''"
    by blast
  from C10_pending_by_default [OF wf_init_widget u defs(2) n2 its(2) alpha]
  have t2: "item_text (checklist ?w' ! 1) = ''Alpha'' @ '' - pending'' @
      message_suffix (stage_messages (dict_get (build_stages ?raw) ''alpha''))"
    by blast
  show ?thesis
    unfolding t1 t2 sfx by simp
qed

text \<open>
  The claim as stated fails for a stage whose status is \<^verbatim>\<open>None\<close> and that reports a
  message: the text is not the title and pending alone.
\<close>

theorem C10_pending_text_counterexample:
  "dict_get (build_stages [(''alpha'', (pending_stage ''alpha'' ''Alpha'')
        \<lparr>st_status := IsNone, st_messages := Some [''queued'']\<rparr>)]) ''alpha'' =
     Some ((pending_stage ''alpha'' ''Alpha'')\<lparr>st_status := IsNone, st_messages := Some [''queued'']\<rparr>)
   \<and> map item_text (checklist (fst (update_from_snapshot example_env
        (init_widget [(''alpha'', ''Alpha'')])
        [(''alpha'', (pending_stage ''alpha'' ''Alpha'')
           \<lparr>st_status := IsNone, st_messages := Some [''queued'']\<rparr>)]))) =
       [''Alpha - pending (queued)'']
   \<and> ''Alpha - pending (queued)'' \<noteq> ''Alpha'' @ '' - pending''"
  by (simp add: eval_defs)

end
